theory Spec2Isabelle
  imports Complex_Main
begin

section \<open>Python string primitives used by the tip parser\<close>

text \<open>
  A Python \<open>str\<close> is a sequence of code points. The reply texts are modelled as
  \<open>string\<close>, one \<open>char\<close> per code point, which covers the code points below 256
  (Latin-1). The character classes below are the ones Python 3 uses on that range.
\<close>

datatype error =
    IndexError | ValueError | APIError | TTSError | AssetError | RenderError | EncodeError | OSError

definition isspace :: "char \<Rightarrow> bool" where
  \<comment> \<open>\<open>str.isspace\<close>: the characters removed by \<open>str.strip()\<close>\<close>
  "isspace c \<longleftrightarrow> c \<in> set [CHR 0x09, CHR 0x0A, CHR 0x0B, CHR 0x0C, CHR 0x0D,
       CHR 0x1C, CHR 0x1D, CHR 0x1E, CHR 0x1F, CHR 0x20, CHR 0x85, CHR 0xA0]"

definition isdigit :: "char \<Rightarrow> bool" where
  \<comment> \<open>\<open>str.isdigit\<close>: the ASCII digits and the superscripts 2, 3, 1\<close>
  "isdigit c \<longleftrightarrow> c \<in> set (''0123456789'' @ [CHR 0xB2, CHR 0xB3, CHR 0xB9])"

definition linebreak :: "char \<Rightarrow> bool" where
  \<comment> \<open>the line boundaries of \<open>str.splitlines\<close>; CR LF is handled in \<open>splitlines_from\<close>\<close>
  "linebreak c \<longleftrightarrow> c \<in> set [CHR 0x0A, CHR 0x0B, CHR 0x0C, CHR 0x0D,
       CHR 0x1C, CHR 0x1D, CHR 0x1E, CHR 0x85]"

definition strip :: "string \<Rightarrow> string" where
  \<comment> \<open>\<open>s.strip()\<close>\<close>
  "strip s = rev (dropWhile isspace (rev (dropWhile isspace s)))"

fun splitlines_from :: "string \<Rightarrow> string \<Rightarrow> string list" where
  \<comment> \<open>\<open>cur\<close> holds the current line, reversed; a final line boundary opens no empty line\<close>
  "splitlines_from cur [] = (if cur = [] then [] else [rev cur])"
| "splitlines_from cur [c] =
     (if linebreak c then [rev cur] else [rev (c # cur)])"
| "splitlines_from cur (c # d # cs) =
     (if c = CHR 0x0D \<and> d = CHR 0x0A then rev cur # splitlines_from [] cs
      else if linebreak c then rev cur # splitlines_from [] (d # cs)
      else splitlines_from (c # cur) (d # cs))"

definition splitlines :: "string \<Rightarrow> string list" where
  \<comment> \<open>\<open>text.splitlines()\<close>\<close>
  "splitlines text = splitlines_from [] text"

definition getitem :: "string \<Rightarrow> nat \<Rightarrow> error + char" where
  \<comment> \<open>\<open>s[i]\<close> for \<open>i \<ge> 0\<close>: out of range raises\<close>
  "getitem s i = (if i < length s then Inr (s ! i) else Inl IndexError)"

definition after_first :: "char \<Rightarrow> string \<Rightarrow> string" where
  \<comment> \<open>\<open>s.split(sep, 1)[1]\<close>, used where \<open>sep in s\<close> holds\<close>
  "after_first sep s = tl (dropWhile (\<lambda>c. c \<noteq> sep) s)"

definition slice_to :: "'a list \<Rightarrow> int \<Rightarrow> 'a list" where
  \<comment> \<open>\<open>xs[:n]\<close>: a negative bound counts from the end\<close>
  "slice_to xs n = (if 0 \<le> n then take (nat n) xs else take (nat (int (length xs) + n)) xs)"

definition sentence_end :: "char \<Rightarrow> bool" where
  "sentence_end c \<longleftrightarrow> c = CHR ''.'' \<or> c = CHR ''!'' \<or> c = CHR ''?''"

function re_split_from :: "bool \<Rightarrow> string \<Rightarrow> string \<Rightarrow> string list" where
  \<comment> \<open>\<open>p\<close>: the lookbehind \<open>(?<=[.!?])\<close> holds here; \<open>cur\<close>: the current piece, reversed.
      A match is a maximal run of spaces after such a character.\<close>
  "re_split_from p cur [] = [rev cur]"
| "re_split_from p cur (c # cs) =
     (if c = CHR '' '' \<and> p
      then rev cur # re_split_from False [] (dropWhile (\<lambda>x. x = CHR '' '') cs)
      else re_split_from (sentence_end c) (c # cur) cs)"
  by pat_completeness auto
termination
  by (relation "measure (\<lambda>(p, cur, s). length s)")
     (auto simp: length_dropWhile_le le_imp_less_Suc)

definition re_split :: "string \<Rightarrow> string list" where
  \<comment> \<open>\<open>re.split(r'(?<=[.!?]) +', text)\<close>\<close>
  "re_split text = re_split_from False [] text"

section \<open>Tip generator\<close>

text \<open>
  \<open>generate_tech_tips\<close> sends one completion request and parses the reply. The reply
  text is the input of the model; a failed request is a failure of the batch driver
  below. Both scripts run the same loop over \<open>text.splitlines()\<close>: strip the line, skip it
  when empty, otherwise remove a leading numbering and append. They differ in the
  numbering step only.
\<close>

definition remove_numbering :: "string \<Rightarrow> error + string" where
  \<comment> \<open>generate_videos.py, lines 45-46: \<open>line[1]\<close> is read whenever \<open>line[0]\<close> is a digit\<close>
  "remove_numbering line =
     (case getitem line 0 of
        Inl e \<Rightarrow> Inl e
      | Inr c0 \<Rightarrow>
          if isdigit c0 then
            (case getitem line 1 of
               Inl e \<Rightarrow> Inl e
             | Inr c1 \<Rightarrow>
                 if c1 = CHR ''.'' \<or> c1 = CHR '')''
                 then Inr (if CHR ''.'' \<in> set line
                           then strip (after_first (CHR ''.'') line) else line)
                 else Inr line)
          else Inr line)"

function find_marker :: "string \<Rightarrow> nat \<Rightarrow> nat" where
  \<comment> \<open>generate_videos_local.py, lines 60-61: the \<open>while\<close> loop advancing \<open>idx\<close>\<close>
  "find_marker line idx =
     (if idx < length line \<and> line ! idx \<notin> set [CHR ''.'', CHR '')'']
      then find_marker line (idx + 1) else idx)"
  by pat_completeness auto
termination
  by (relation "measure (\<lambda>(line, idx). length line - idx)") auto

declare find_marker.simps [simp del]

definition remove_numbering_local :: "string \<Rightarrow> error + string" where
  \<comment> \<open>generate_videos_local.py, lines 57-62: the same test behind \<open>len(line) > 1\<close>\<close>
  "remove_numbering_local line =
     (if 1 < length line then
        (case getitem line 0 of
           Inl e \<Rightarrow> Inl e
         | Inr c0 \<Rightarrow>
             if isdigit c0 then
               (case getitem line 1 of
                  Inl e \<Rightarrow> Inl e
                | Inr c1 \<Rightarrow>
                    if c1 \<in> set [CHR ''.'', CHR '')'']
                    then (let idx = find_marker line 1
                          in Inr (if idx < length line
                                  then strip (drop (idx + 1) line) else line))
                    else Inr line)
             else Inr line)
      else Inr line)"

fun parse_lines :: "(string \<Rightarrow> error + string) \<Rightarrow> string list \<Rightarrow> error + string list" where
  \<comment> \<open>the \<open>for line in text.splitlines()\<close> loop; \<open>lines.append\<close> keeps the order of the text\<close>
  "parse_lines body [] = Inr []"
| "parse_lines body (l # ls) =
     (let line = strip l in
      if line = [] then parse_lines body ls
      else (case body line of
              Inl e \<Rightarrow> Inl e
            | Inr line' \<Rightarrow>
                (case parse_lines body ls of
                   Inl e \<Rightarrow> Inl e
                 | Inr lines \<Rightarrow> Inr (line' # lines))))"

definition fallback_sentences :: "string \<Rightarrow> int \<Rightarrow> string list" where
  \<comment> \<open>\<open>[s.strip() for s in re.split(...) if len(s.strip()) > 10][:num_tips]\<close>\<close>
  "fallback_sentences text num_tips =
     slice_to (map strip (filter (\<lambda>s. 10 < length (strip s)) (re_split text))) num_tips"

definition tips_of :: "(string \<Rightarrow> error + string) \<Rightarrow> int \<Rightarrow> string \<Rightarrow> error + string list" where
  \<comment> \<open>the body of \<open>generate_tech_tips\<close> after the request, for a given numbering step\<close>
  "tips_of body num_tips text =
     (case parse_lines body (splitlines text) of
        Inl e \<Rightarrow> Inl e
      | Inr lines \<Rightarrow>
          Inr (slice_to (if int (length lines) < num_tips
                         then fallback_sentences text num_tips else lines) num_tips))"

definition generate_tech_tips :: "int \<Rightarrow> string \<Rightarrow> error + string list" where
  \<comment> \<open>generate_videos.py\<close>
  "generate_tech_tips num_tips text = tips_of remove_numbering num_tips text"

definition generate_tech_tips_local :: "int \<Rightarrow> string \<Rightarrow> error + string list" where
  \<comment> \<open>generate_videos_local.py\<close>
  "generate_tech_tips_local num_tips text = tips_of remove_numbering_local num_tips text"

section \<open>Clip duration\<close>

text \<open>
  Durations are seconds. The scripts compute with Python floats; the model uses
  \<open>real\<close>. \<open>min\<close> and \<open>max\<close> are Python's: the first argument unless the second
  is strictly smaller (larger).
\<close>

definition py_min :: "real \<Rightarrow> real \<Rightarrow> real" where
  "py_min a b = (if b < a then b else a)"

definition py_max :: "real \<Rightarrow> real \<Rightarrow> real" where
  "py_max a b = (if b > a then b else a)"

definition clip_duration :: "real option \<Rightarrow> real \<Rightarrow> real" where
  \<comment> \<open>\<open>duration if duration else max(8, min(25, aud_duration + 0.5))\<close>:
      \<open>None\<close> and \<open>0\<close> are both false\<close>
  "clip_duration duration aud_duration =
     (case duration of
        Some d \<Rightarrow> if d \<noteq> 0 then d else py_max 8 (py_min 25 (aud_duration + 0.5))
      | None \<Rightarrow> py_max 8 (py_min 25 (aud_duration + 0.5)))"

section \<open>Files, clips and the external collaborators\<close>

text \<open>
  The scripts act on the disk through gTTS, moviepy, PIL and pathlib, none of which
  belongs to the repository. The model keeps what the properties below speak about:
  which files exist and what kind they are (\<open>files\<close>), every write in order
  (\<open>written\<close>), and the origin and duration of a clip. What the collaborators do
  during one iteration of the batch (whether a request succeeds, how long the narration
  is, what the clock and the uuid generator return) is an \<open>outcome\<close>, an input of the
  model. Frame sizes, pixels and the encoded stream are not modelled. Paths are
  normalised strings as \<open>str(path)\<close> gives them.
\<close>

type_synonym path = string
type_synonym rgb = "nat \<times> nat \<times> nat"

datatype content =
    Audio real   \<comment> \<open>a narration file and its length\<close>
  | Video real   \<comment> \<open>a decodable video and its native duration\<close>
  | Damaged      \<comment> \<open>a file that no decoder reads\<close>
  | Picture      \<comment> \<open>a caption raster image\<close>
  | Json "(string \<times> string) list"   \<comment> \<open>a manifest: the \<open>tip\<close>, \<open>file\<close> pairs in order\<close>

record world =
  files :: "path \<rightharpoonup> content"
  written :: "path list"   \<comment> \<open>every file write of the run, the latest first\<close>

datatype origin = Stock path | Solid rgb

record clip =
  origin :: origin
  seconds :: real   \<comment> \<open>the clip's \<open>duration\<close> attribute\<close>

record outcome =
  ext_time :: int         \<comment> \<open>\<open>int(time.time())\<close>\<close>
  ext_tts :: bool         \<comment> \<open>the text-to-speech request succeeds\<close>
  ext_audio_len :: real   \<comment> \<open>\<open>audio.duration\<close> of the synthesized narration\<close>
  ext_caption :: bool     \<comment> \<open>the caption renders (fonts, ImageMagick)\<close>
  ext_uuid :: string      \<comment> \<open>\<open>uuid.uuid4().hex\<close>\<close>
  ext_encode :: bool      \<comment> \<open>\<open>write_videofile\<close> succeeds\<close>
  ext_close :: bool       \<comment> \<open>\<open>audio.close()\<close> succeeds\<close>
  ext_unlink :: bool      \<comment> \<open>the operating system lets the image be removed\<close>

definition write_file :: "path \<Rightarrow> content \<Rightarrow> world \<Rightarrow> world" where
  "write_file p c w = w\<lparr>files := (files w)(p \<mapsto> c), written := p # written w\<rparr>"

definition path_exists :: "world \<Rightarrow> path \<Rightarrow> bool" where
  "path_exists w p \<longleftrightarrow> files w p \<noteq> None"

definition path_name :: "path \<Rightarrow> string" where
  \<comment> \<open>the final component of a normalised path\<close>
  "path_name p = rev (takeWhile (\<lambda>c. c \<noteq> CHR ''/'') (rev p))"

definition path_suffix :: "string \<Rightarrow> string" where
  \<comment> \<open>pathlib's \<open>suffix\<close> of a name: from the last dot, unless that dot is first or last\<close>
  "path_suffix name =
     (let after = takeWhile (\<lambda>c. c \<noteq> CHR ''.'') (rev name)
      in if CHR ''.'' \<in> set name \<and> after \<noteq> [] \<and> Suc (length after) < length name
         then drop (length name - Suc (length after)) name else [])"

definition with_suffix :: "path \<Rightarrow> string \<Rightarrow> error + path" where
  \<comment> \<open>\<open>p.with_suffix(s)\<close> for a valid \<open>s\<close> such as \<open>".mp3"\<close>: an empty name raises\<close>
  "with_suffix p s =
     (let name = path_name p
      in if name = [] \<or> name = ''.'' then Inl ValueError
         else Inr (take (length p - length (path_suffix name)) p @ s))"

definition create_voice :: "outcome \<Rightarrow> string \<Rightarrow> path \<Rightarrow> world \<Rightarrow> error option \<times> world" where
  \<comment> \<open>\<open>gTTS(...).save(out_path)\<close>\<close>
  "create_voice oc text out_path w =
     (if ext_tts oc then (None, write_file out_path (Audio (ext_audio_len oc)) w)
      else (Some TTSError, w))"

definition AudioFileClip :: "world \<Rightarrow> path \<Rightarrow> error + real" where
  \<comment> \<open>opens the narration; the value is its \<open>duration\<close>\<close>
  "AudioFileClip w p = (case files w p of Some (Audio d) \<Rightarrow> Inr d | _ \<Rightarrow> Inl OSError)"

definition VideoFileClip :: "world \<Rightarrow> path \<Rightarrow> error + clip" where
  \<comment> \<open>decoding, resizing and cropping a stock clip: only a decodable video passes\<close>
  "VideoFileClip w p =
     (case files w p of
        Some (Video d) \<Rightarrow> Inr \<lparr>origin = Stock p, seconds = d\<rparr>
      | _ \<Rightarrow> Inl AssetError)"

definition subclip :: "clip \<Rightarrow> real \<Rightarrow> real \<Rightarrow> error + clip" where
  \<comment> \<open>Modelled from the spec: moviepy is not part of the repository. "Taking a subclip
      from 0 to min(duration, clip_native_duration)": the part from \<open>t_start\<close> to
      \<open>t_end\<close>; moviepy rejects a start beyond the clip's end.\<close>
  "subclip c t_start t_end =
     (if t_start > seconds c then Inl ValueError
      else Inr (c\<lparr>seconds := t_end - t_start\<rparr>))"

definition set_duration :: "clip \<Rightarrow> real \<Rightarrow> clip" where
  \<comment> \<open>Modelled from the spec: moviepy is not part of the repository. "Stretching the
      displayed duration to duration".\<close>
  "set_duration c t = c\<lparr>seconds := t\<rparr>"

definition ColorClip :: "rgb \<Rightarrow> real \<Rightarrow> clip" where
  "ColorClip color t = \<lparr>origin = Solid color, seconds = t\<rparr>"

definition background :: "real \<Rightarrow> rgb \<Rightarrow> path option \<Rightarrow> world \<Rightarrow> error + clip" where
  \<comment> \<open>generate_videos.py, lines 72-79; an empty path string is false\<close>
  "background cd bg_color use_stock_clip w =
     (case use_stock_clip of
        Some p \<Rightarrow>
          if p \<noteq> [] \<and> path_exists w p then
            (case VideoFileClip w p of
               Inl e \<Rightarrow> Inl e
             | Inr bg \<Rightarrow>
                 (case subclip bg 0 (py_min cd (seconds bg)) of
                    Inl e \<Rightarrow> Inl e
                  | Inr bg' \<Rightarrow> Inr (set_duration bg' cd)))
          else Inr (ColorClip bg_color cd)
      | None \<Rightarrow> Inr (ColorClip bg_color cd))"

definition background_local :: "real \<Rightarrow> rgb \<Rightarrow> path option \<Rightarrow> world \<Rightarrow> error + clip" where
  \<comment> \<open>generate_videos_local.py, lines 112-121: the stock branch sits in \<open>try\<close>,
      and \<open>except Exception\<close> builds the solid colour\<close>
  "background_local cd bg_color use_stock_clip w =
     (case use_stock_clip of
        Some p \<Rightarrow>
          if p \<noteq> [] \<and> path_exists w p then
            (case (case VideoFileClip w p of
                     Inl e \<Rightarrow> Inl e
                   | Inr bg \<Rightarrow>
                       (case subclip bg 0 (py_min cd (seconds bg)) of
                          Inl e \<Rightarrow> Inl e
                        | Inr bg' \<Rightarrow> Inr (set_duration bg' cd))) of
               Inl e \<Rightarrow> Inr (ColorClip bg_color cd)
             | Inr bg \<Rightarrow> Inr bg)
          else Inr (ColorClip bg_color cd)
      | None \<Rightarrow> Inr (ColorClip bg_color cd))"

definition write_videofile :: "outcome \<Rightarrow> path \<Rightarrow> real \<Rightarrow> world \<Rightarrow> error option \<times> world" where
  "write_videofile oc output_path t w =
     (if ext_encode oc then (None, write_file output_path (Video t) w)
      else (Some EncodeError, w))"

definition audio_close :: "outcome \<Rightarrow> world \<Rightarrow> error option \<times> world" where
  \<comment> \<open>\<open>audio.close()\<close> releases the reader; no file changes\<close>
  "audio_close oc w = (if ext_close oc then (None, w) else (Some OSError, w))"

definition unlink :: "outcome \<Rightarrow> path \<Rightarrow> world \<Rightarrow> error option \<times> world" where
  \<comment> \<open>\<open>tmp_img.unlink()\<close>\<close>
  "unlink oc p w =
     (if ext_unlink oc \<and> path_exists w p then (None, w\<lparr>files := (files w)(p := None)\<rparr>)
      else (Some OSError, w))"

definition try_pass :: "error option \<times> world \<Rightarrow> world" where
  \<comment> \<open>\<open>try: ... except: pass\<close>\<close>
  "try_pass r = snd r"

definition text_image_path :: "outcome \<Rightarrow> path" where
  \<comment> \<open>\<open>OUT_DIR / f"text_{uuid.uuid4().hex}.png"\<close>\<close>
  "text_image_path oc = ''outputs/text_'' @ ext_uuid oc @ ''.png''"

definition create_text_image_clip :: "outcome \<Rightarrow> string \<Rightarrow> real \<Rightarrow> world \<Rightarrow> (error + path) \<times> world" where
  \<comment> \<open>generate_videos_local.py, lines 77-100: draws, saves the image, returns its path\<close>
  "create_text_image_clip oc text t w =
     (if ext_caption oc
      then (Inr (text_image_path oc), write_file (text_image_path oc) Picture w)
      else (Inl RenderError, w))"

section \<open>Building one video\<close>

definition build_video ::
  "outcome \<Rightarrow> string \<Rightarrow> path \<Rightarrow> real option \<Rightarrow> rgb \<Rightarrow> path option \<Rightarrow> world \<Rightarrow> error option \<times> world" where
  \<comment> \<open>generate_videos.py, lines 61-103\<close>
  "build_video oc tip_text output_path duration bg_color use_stock_clip w =
     (case with_suffix output_path ''.mp3'' of
        Inl e \<Rightarrow> (Some e, w)
      | Inr audio_file \<Rightarrow>
          (case create_voice oc tip_text audio_file w of
             (Some e, w1) \<Rightarrow> (Some e, w1)
           | (None, w1) \<Rightarrow>
               (case AudioFileClip w1 audio_file of
                  Inl e \<Rightarrow> (Some e, w1)
                | Inr aud_duration \<Rightarrow>
                    (case background (clip_duration duration aud_duration)
                            bg_color use_stock_clip w1 of
                       Inl e \<Rightarrow> (Some e, w1)
                     | Inr bg \<Rightarrow>
                         if \<not> ext_caption oc then (Some RenderError, w1)
                         else
                           (case write_videofile oc output_path
                                   (clip_duration duration aud_duration) w1 of
                              (Some e, w2) \<Rightarrow> (Some e, w2)
                            | (None, w2) \<Rightarrow> (None, try_pass (audio_close oc w2)))))))"

definition build_video_local ::
  "outcome \<Rightarrow> string \<Rightarrow> path \<Rightarrow> real option \<Rightarrow> rgb \<Rightarrow> path option \<Rightarrow> world \<Rightarrow> error option \<times> world" where
  \<comment> \<open>generate_videos_local.py, lines 103-138\<close>
  "build_video_local oc tip_text output_path duration bg_color use_stock_clip w =
     (case with_suffix output_path ''.mp3'' of
        Inl e \<Rightarrow> (Some e, w)
      | Inr audio_file \<Rightarrow>
          (case create_voice oc tip_text audio_file w of
             (Some e, w1) \<Rightarrow> (Some e, w1)
           | (None, w1) \<Rightarrow>
               (case AudioFileClip w1 audio_file of
                  Inl e \<Rightarrow> (Some e, w1)
                | Inr aud_duration \<Rightarrow>
                    (case background_local (clip_duration duration aud_duration)
                            bg_color use_stock_clip w1 of
                       Inl e \<Rightarrow> (Some e, w1)
                     | Inr bg \<Rightarrow>
                         (case create_text_image_clip oc tip_text
                                 (clip_duration duration aud_duration) w1 of
                            (Inl e, w2) \<Rightarrow> (Some e, w2)
                          | (Inr tmp_img, w2) \<Rightarrow>
                              (case write_videofile oc output_path
                                      (clip_duration duration aud_duration) w2 of
                                 (Some e, w3) \<Rightarrow> (Some e, w3)
                               | (None, w3) \<Rightarrow>
                                   (None, try_pass (unlink oc tmp_img
                                            (try_pass (audio_close oc w3))))))))))"

section \<open>Batch driver\<close>

definition digit_char :: "nat \<Rightarrow> char" where
  "digit_char d = ''0123456789'' ! d"

function str_nat :: "nat \<Rightarrow> string" where
  \<comment> \<open>the decimal digits of a natural number\<close>
  "str_nat n = (if n < 10 then [digit_char n] else str_nat (n div 10) @ [digit_char (n mod 10)])"
  by pat_completeness auto
termination
  by (relation "measure (\<lambda>n. n)") auto

declare str_nat.simps [simp del]

definition str_int :: "int \<Rightarrow> string" where
  \<comment> \<open>how an f-string formats an \<open>int\<close>\<close>
  "str_int i = (if i < 0 then CHR ''-'' # str_nat (nat (- i)) else str_nat (nat i))"

definition video_name :: "int \<Rightarrow> nat \<Rightarrow> string" where
  \<comment> \<open>\<open>f"tech_tip_{int(time.time())}_{i+1}.mp4"\<close>\<close>
  "video_name t i = ''tech_tip_'' @ str_int t @ ''_'' @ str_int (int i + 1) @ ''.mp4''"

definition out_path_of :: "int \<Rightarrow> nat \<Rightarrow> path" where
  \<comment> \<open>\<open>OUT_DIR / name\<close>\<close>
  "out_path_of t i = ''outputs/'' @ video_name t i"

definition manifest_path :: path where
  "manifest_path = ''outputs/videos_log.json''"

definition pick_stock :: "path list \<Rightarrow> nat \<Rightarrow> path option" where
  \<comment> \<open>\<open>str(stock_candidates[i % len(stock_candidates)]) if stock_candidates else None\<close>\<close>
  "pick_stock stock_candidates i =
     (if stock_candidates \<noteq> [] then Some (stock_candidates ! (i mod length stock_candidates))
      else None)"

type_synonym builder =
  "outcome \<Rightarrow> string \<Rightarrow> path \<Rightarrow> real option \<Rightarrow> rgb \<Rightarrow> path option \<Rightarrow> world \<Rightarrow> error option \<times> world"

fun batch ::
  "builder \<Rightarrow> path list \<Rightarrow> (nat \<Rightarrow> outcome) \<Rightarrow> nat \<Rightarrow> string list \<Rightarrow> (string \<times> string) list
     \<Rightarrow> world \<Rightarrow> error option \<times> (string \<times> string) list \<times> world" where
  \<comment> \<open>the \<open>for i, tip in enumerate(tips)\<close> loop from index \<open>i\<close>, with \<open>results\<close> so far;
      \<open>ocs i\<close> is what the outside world does during iteration \<open>i\<close>\<close>
  "batch build stock_candidates ocs i [] results w = (None, results, w)"
| "batch build stock_candidates ocs i (tip # tips) results w =
     (case build (ocs i) tip (out_path_of (ext_time (ocs i)) i) None (18, 18, 18)
             (pick_stock stock_candidates i) w of
        (Some e, w') \<Rightarrow> (Some e, results, w')
      | (None, w') \<Rightarrow>
          batch build stock_candidates ocs (Suc i) tips
            (results @ [(tip, out_path_of (ext_time (ocs i)) i)]) w')"

definition script ::
  "(int \<Rightarrow> string \<Rightarrow> error + string list) \<Rightarrow> builder \<Rightarrow> string option \<Rightarrow> error + string
     \<Rightarrow> path list \<Rightarrow> (nat \<Rightarrow> outcome) \<Rightarrow> world \<Rightarrow> nat \<times> (string \<times> string) list \<times> world" where
  \<comment> \<open>a whole run of either script: the exit status, the list \<open>results\<close> at exit, the
      files. \<open>key\<close> is the credential in the environment, \<open>reply\<close> the completion
      request's outcome, \<open>stock_candidates\<close> the sorted listing of the assets
      directory. An uncaught exception and \<open>SystemExit\<close> with a message both exit with
      status 1.\<close>
  "script tips_fn build key reply stock_candidates ocs w =
     (case key of
        None \<Rightarrow> (1, [], w)
      | Some k \<Rightarrow>
          if k = [] then (1, [], w)
          else
            (case reply of
               Inl e \<Rightarrow> (1, [], w)
             | Inr text \<Rightarrow>
                 (case tips_fn 5 text of
                    Inl e \<Rightarrow> (1, [], w)
                  | Inr tips \<Rightarrow>
                      (case batch build stock_candidates ocs 0 tips [] w of
                         (Some e, results, w') \<Rightarrow> (1, results, w')
                       | (None, results, w') \<Rightarrow>
                           (0, results, write_file manifest_path (Json results) w')))))"

definition main :: "string option \<Rightarrow> error + string \<Rightarrow> path list \<Rightarrow> (nat \<Rightarrow> outcome) \<Rightarrow> world
     \<Rightarrow> nat \<times> (string \<times> string) list \<times> world" where
  \<comment> \<open>generate_videos.py\<close>
  "main = script generate_tech_tips build_video"

definition main_local :: "string option \<Rightarrow> error + string \<Rightarrow> path list \<Rightarrow> (nat \<Rightarrow> outcome) \<Rightarrow> world
     \<Rightarrow> nat \<times> (string \<times> string) list \<times> world" where
  \<comment> \<open>generate_videos_local.py\<close>
  "main_local = script generate_tech_tips_local build_video_local"

section \<open>Bookkeeping for the file system\<close>

definition ends_with :: "string \<Rightarrow> path \<Rightarrow> bool" where
  "ends_with sfx p \<longleftrightarrow> length sfx \<le> length p \<and> drop (length p - length sfx) p = sfx"

definition extends :: "(path \<Rightarrow> bool) \<Rightarrow> world \<Rightarrow> world \<Rightarrow> bool" where
  \<comment> \<open>\<open>w'\<close> comes from \<open>w\<close> by writing or removing files at paths that satisfy \<open>ok\<close>\<close>
  "extends ok w w' \<longleftrightarrow>
     (\<exists>new. written w' = new @ written w \<and> (\<forall>p \<in> set new. ok p))
     \<and> (\<forall>p. \<not> ok p \<longrightarrow> files w' p = files w p)"

section \<open>A sample run\<close>

text \<open>
  The end-to-end scenario of the specification: five numbered tips, a synthesizer that
  gives two seconds of audio, every collaborator succeeding, an empty disk.
\<close>

definition sample_reply :: string where
  "sample_reply = ''1. Tip A.\<newline>2. Tip B.\<newline>3. Tip C.\<newline>4. Tip D.\<newline>5. Tip E.''"

definition sample_outcome :: outcome where
  "sample_outcome = \<lparr>ext_time = 1700000000, ext_tts = True, ext_audio_len = 2,
     ext_caption = True, ext_uuid = ''ab12'', ext_encode = True, ext_close = True,
     ext_unlink = True\<rparr>"

definition empty_disk :: world where
  "empty_disk = \<lparr>files = Map.empty, written = []\<rparr>"

section \<open>The parser in the specification's terms\<close>

text \<open>
  The specification describes the tips as the non-blank lines of the reply with their
  leading enumeration marker removed. These definitions say so directly; the theorems
  below compare them with the loops of the two scripts.
\<close>

definition nonblank_lines :: "string \<Rightarrow> string list" where
  "nonblank_lines text = filter (\<lambda>l. l \<noteq> []) (map strip (splitlines text))"

definition numbered :: "string \<Rightarrow> bool" where
  \<comment> \<open>the line starts with a marker: a digit, then a dot or a closing parenthesis\<close>
  "numbered l \<longleftrightarrow> 1 < length l \<and> isdigit (l ! 0) \<and> (l ! 1 = CHR ''.'' \<or> l ! 1 = CHR '')'')"

definition paren_numbered :: "string \<Rightarrow> bool" where
  \<comment> \<open>the marker is a digit and a closing parenthesis\<close>
  "paren_numbered l \<longleftrightarrow> 1 < length l \<and> isdigit (l ! 0) \<and> l ! 1 = CHR '')''"

definition without_marker :: "string \<Rightarrow> string" where
  \<comment> \<open>the line without its two marker characters, trimmed again\<close>
  "without_marker l = (if numbered l then strip (drop 2 l) else l)"

section \<open>Facts about the primitives\<close>

lemma py_min_eq: "py_min a b = min a b"
  by (simp add: py_min_def min_def)

lemma py_max_eq: "py_max a b = max a b"
  by (simp add: py_max_def max_def)

lemma clip_duration_zero: "clip_duration (Some 0) = clip_duration None"
  by (rule ext) (simp add: clip_duration_def)

lemma remove_numbering_fails:
  "line \<noteq> [] \<Longrightarrow>
   remove_numbering line = Inl e \<longleftrightarrow> e = IndexError \<and> length line = 1 \<and> isdigit (hd line)"
  by (cases line) (auto simp: remove_numbering_def getitem_def split: if_splits)

lemma remove_numbering_local_total: "\<exists>r. remove_numbering_local line = Inr r"
  by (simp add: remove_numbering_local_def getitem_def Let_def)

lemma parse_lines_fails:
  "(\<exists>e. parse_lines body ls = Inl e) \<longleftrightarrow>
   (\<exists>l \<in> set ls. strip l \<noteq> [] \<and> (\<exists>e. body (strip l) = Inl e))"
  by (induction ls) (auto simp: Let_def split: sum.splits)

lemma parse_lines_error:
  "parse_lines body ls = Inl e \<Longrightarrow> \<exists>l \<in> set ls. strip l \<noteq> [] \<and> body (strip l) = Inl e"
  by (induction ls) (auto simp: Let_def split: sum.splits if_splits)

lemma tips_of_error:
  "tips_of body n text = Inl e \<longleftrightarrow> parse_lines body (splitlines text) = Inl e"
  by (auto simp: tips_of_def split: sum.splits)

lemma find_marker_here:
  "idx < length line \<Longrightarrow> line ! idx \<in> set [CHR ''.'', CHR '')''] \<Longrightarrow> find_marker line idx = idx"
  by (subst find_marker.simps) simp

lemma remove_numbering_local_eq: "remove_numbering_local l = Inr (without_marker l)"
proof (cases "numbered l")
  case True
  then have "find_marker l 1 = 1"
    using find_marker_here [of 1 l] by (auto simp: numbered_def)
  with True show ?thesis
    by (auto simp: remove_numbering_local_def without_marker_def numbered_def getitem_def
        numeral_2_eq_2)
next
  case False
  then show ?thesis
    by (auto simp: remove_numbering_local_def without_marker_def numbered_def getitem_def)
qed

lemma parse_lines_map:
  "(\<And>l. body l = Inr (f l)) \<Longrightarrow>
   parse_lines body ls = Inr (map f (filter (\<lambda>l. l \<noteq> []) (map strip ls)))"
  by (induction ls) (simp_all add: Let_def)

lemma parse_lines_rel:
  "parse_lines body ls = Inr xs \<Longrightarrow>
   list_all2 (\<lambda>l x. body l = Inr x) (filter (\<lambda>l. l \<noteq> []) (map strip ls)) xs"
  by (induction ls arbitrary: xs) (auto simp: Let_def split: sum.splits if_splits)

lemma isdigit_not_dot: "isdigit c \<Longrightarrow> c \<noteq> CHR ''.''"
  by (auto simp: isdigit_def)

lemma after_first_dot:
  "1 < length l \<Longrightarrow> isdigit (l ! 0) \<Longrightarrow> l ! 1 = CHR ''.'' \<Longrightarrow> after_first (CHR ''.'') l = drop 2 l"
proof -
  assume a: "1 < length l" "isdigit (l ! 0)" "l ! 1 = CHR ''.''"
  then obtain c0 c1 rest where l: "l = c0 # c1 # rest"
    by (cases l; cases "tl l") auto
  with a show ?thesis
    by (auto simp: after_first_def dest: isdigit_not_dot)
qed

lemma remove_numbering_unmarked:
  "remove_numbering l = Inr x \<Longrightarrow> \<not> numbered l \<Longrightarrow> x = l"
  by (auto simp: remove_numbering_def numbered_def getitem_def split: if_splits sum.splits)

lemma remove_numbering_dot:
  "remove_numbering l = Inr x \<Longrightarrow> 1 < length l \<Longrightarrow> isdigit (l ! 0) \<Longrightarrow> l ! 1 = CHR ''.'' \<Longrightarrow>
   x = without_marker l"
  using after_first_dot [of l]
  by (auto simp: remove_numbering_def numbered_def without_marker_def getitem_def
      dest: nth_mem split: if_splits)

lemma length_slice_to: "0 \<le> n \<Longrightarrow> length (slice_to xs n) \<le> nat n"
  by (simp add: slice_to_def)

lemma tips_of_length: "1 \<le> n \<Longrightarrow> tips_of body n text = Inr tips \<Longrightarrow> length tips \<le> nat n"
  by (auto simp: tips_of_def slice_to_def split: sum.splits if_splits)

lemma tips_of_direct:
  "parse_lines body (splitlines text) = Inr ls \<Longrightarrow> 0 \<le> n \<Longrightarrow> n \<le> int (length ls) \<Longrightarrow>
   tips_of body n text = Inr (take (nat n) ls)"
  by (simp add: tips_of_def slice_to_def)

lemma tips_of_fallback:
  "parse_lines body (splitlines text) = Inr ls \<Longrightarrow> int (length ls) < n \<Longrightarrow>
   tips_of body n text =
     Inr (take (nat n) (map strip (filter (\<lambda>s. 10 < length (strip s)) (re_split text))))"
  by (simp add: tips_of_def slice_to_def fallback_sentences_def)

lemma parse_local: "parse_lines remove_numbering_local (splitlines text) = Inr (map without_marker (nonblank_lines text))"
  unfolding nonblank_lines_def by (rule parse_lines_map) (rule remove_numbering_local_eq)

lemma parse_remote:
  assumes "\<not> (\<exists>l \<in> set (splitlines text). length (strip l) = 1 \<and> isdigit (hd (strip l)))"
  shows "\<exists>ls. parse_lines remove_numbering (splitlines text) = Inr ls \<and> length ls = length (nonblank_lines text)"
proof (cases "parse_lines remove_numbering (splitlines text)")
  case (Inl e)
  then obtain l where "l \<in> set (splitlines text)" "strip l \<noteq> []" "remove_numbering (strip l) = Inl e"
    using parse_lines_error by blast
  with assms show ?thesis using remove_numbering_fails by blast
next
  case (Inr ls)
  then show ?thesis
    using parse_lines_rel [OF Inr] by (auto simp: nonblank_lines_def dest: list_all2_lengthD)
qed

lemma re_split_from_nonempty: "re_split_from p cur s \<noteq> []"
  by (induction p cur s rule: re_split_from.induct) auto

lemma re_split_from_pieces:
  "(p \<longleftrightarrow> cur \<noteq> [] \<and> sentence_end (hd cur)) \<Longrightarrow>
   x \<in> set (butlast (re_split_from p cur s)) \<Longrightarrow> x \<noteq> [] \<and> sentence_end (last x)"
proof (induction p cur s rule: re_split_from.induct)
  case (1 p cur)
  then show ?case by simp
next
  case (2 p cur c cs)
  show ?case
  proof (cases "c = CHR '' '' \<and> p")
    case True
    with 2 show ?thesis
      by (auto simp: re_split_from_nonempty last_rev)
  next
    case False
    with 2 show ?thesis by auto
  qed
qed

lemma re_split_pieces:
  "x \<in> set (butlast (re_split text)) \<Longrightarrow> x \<noteq> [] \<and> sentence_end (last x)"
  unfolding re_split_def by (rule re_split_from_pieces) simp_all

lemma strip_empty: "strip s = [] \<longleftrightarrow> (\<forall>c \<in> set s. isspace c)"
proof
  assume "strip s = []"
  then have all: "\<forall>x \<in> set (dropWhile isspace s). isspace x"
    by (simp add: strip_def dropWhile_eq_Nil_conv)
  have "dropWhile isspace s = []"
  proof (rule ccontr)
    assume ne: "dropWhile isspace s \<noteq> []"
    then have "\<not> isspace (hd (dropWhile isspace s))" by (rule hd_dropWhile)
    with ne all show False by (meson hd_in_set)
  qed
  then show "\<forall>c \<in> set s. isspace c" by (simp add: dropWhile_eq_Nil_conv)
next
  assume "\<forall>c \<in> set s. isspace c"
  then have e: "dropWhile isspace s = []" by (simp add: dropWhile_eq_Nil_conv)
  show "strip s = []" unfolding strip_def e by simp
qed

lemma strip_last: "strip s \<noteq> [] \<Longrightarrow> \<not> isspace (last (strip s))"
proof -
  assume "strip s \<noteq> []"
  then have ne: "dropWhile isspace (rev (dropWhile isspace s)) \<noteq> []"
    by (simp add: strip_def)
  then have "\<not> isspace (hd (dropWhile isspace (rev (dropWhile isspace s))))"
    by (rule hd_dropWhile)
  with ne show ?thesis by (simp add: strip_def last_rev)
qed

lemma without_marker_empty:
  assumes "l \<in> set (nonblank_lines text)"
  shows "without_marker l = [] \<longleftrightarrow> numbered l \<and> length l = 2"
proof -
  from assms obtain x where l: "l = strip x" "l \<noteq> []"
    by (auto simp: nonblank_lines_def)
  then have nsp: "\<not> isspace (last l)" using strip_last by blast
  show ?thesis
  proof (cases "numbered l")
    case False
    with l show ?thesis by (simp add: without_marker_def)
  next
    case True
    then have len: "2 \<le> length l" by (simp add: numbered_def)
    show ?thesis
    proof (cases "length l = 2")
      case True
      with \<open>numbered l\<close> show ?thesis by (simp add: without_marker_def strip_def)
    next
      case False
      with len have "drop 2 l \<noteq> []" by simp
      then have "last (drop 2 l) = last l" "last (drop 2 l) \<in> set (drop 2 l)"
        using last_in_set [of "drop 2 l"] by (simp_all add: last_drop)
      with nsp have "strip (drop 2 l) \<noteq> []" by (auto simp: strip_empty)
      with True False show ?thesis by (simp add: without_marker_def)
    qed
  qed
qed

lemma tips_of_fallback_long:
  "tips_of body n text = Inr tips \<Longrightarrow> int (length (nonblank_lines text)) < n \<Longrightarrow>
   t \<in> set tips \<Longrightarrow> 10 < length t"
proof -
  assume a: "tips_of body n text = Inr tips" "int (length (nonblank_lines text)) < n"
    "t \<in> set tips"
  then obtain ls where ls: "parse_lines body (splitlines text) = Inr ls"
    by (auto simp: tips_of_def split: sum.splits)
  then have "length ls = length (nonblank_lines text)"
    using parse_lines_rel [OF ls] by (auto simp: nonblank_lines_def dest: list_all2_lengthD)
  with a ls have "tips = take (nat n) (map strip (filter (\<lambda>s. 10 < length (strip s)) (re_split text)))"
    using tips_of_fallback [OF ls, of n] by simp
  with a(3) show ?thesis by (auto dest: in_set_takeD)
qed

lemma remote_entries:
  assumes "generate_tech_tips n text = Inr tips" "0 \<le> n" "n \<le> int (length (nonblank_lines text))"
  shows "length tips = nat n"
    and "i < nat n \<Longrightarrow> \<not> numbered (nonblank_lines text ! i) \<or> nonblank_lines text ! i ! 1 = CHR ''.'' \<Longrightarrow>
         tips ! i = without_marker (nonblank_lines text ! i)"
proof -
  from assms(1) obtain ls where ls: "parse_lines remove_numbering (splitlines text) = Inr ls"
    by (auto simp: generate_tech_tips_def tips_of_def split: sum.splits)
  have rel: "list_all2 (\<lambda>l x. remove_numbering l = Inr x) (nonblank_lines text) ls"
    using parse_lines_rel [OF ls] by (simp add: nonblank_lines_def)
  then have len: "length ls = length (nonblank_lines text)"
    by (auto dest: list_all2_lengthD)
  with assms ls have tips: "tips = take (nat n) ls"
    using tips_of_direct [OF ls, of n] by (simp add: generate_tech_tips_def)
  with len assms show "length tips = nat n" by simp
  assume i: "i < nat n"
    and m: "\<not> numbered (nonblank_lines text ! i) \<or> nonblank_lines text ! i ! 1 = CHR ''.''"
  with assms len have ilen: "i < length (nonblank_lines text)" by linarith
  with rel have r: "remove_numbering (nonblank_lines text ! i) = Inr (ls ! i)"
    by (simp add: list_all2_conv_all_nth)
  from tips i have ti: "tips ! i = ls ! i" by simp
  show "tips ! i = without_marker (nonblank_lines text ! i)"
  proof (cases "numbered (nonblank_lines text ! i)")
    case False
    with r ti show ?thesis
      using remove_numbering_unmarked [OF r] by (simp add: without_marker_def)
  next
    case True
    with m have "nonblank_lines text ! i ! 1 = CHR ''.''" by simp
    with True r ti show ?thesis
      using remove_numbering_dot [OF r] by (simp add: numbered_def)
  qed
qed

lemma str_nat_nonempty: "str_nat n \<noteq> []"
  by (subst str_nat.simps) simp

lemma digit_char_inj: "a < 10 \<Longrightarrow> b < 10 \<Longrightarrow> digit_char a = digit_char b \<Longrightarrow> a = b"
proof -
  assume a: "a < 10" and b: "b < 10" and e: "digit_char a = digit_char b"
  from a have "a \<in> {0, 1, 2, 3, 4, 5, 6, 7, 8, 9}" by auto
  moreover from b have "b \<in> {0, 1, 2, 3, 4, 5, 6, 7, 8, 9}" by auto
  ultimately show ?thesis using e by (auto simp: digit_char_def)
qed

lemma digit_char_digit: "d < 10 \<Longrightarrow> digit_char d \<in> set ''0123456789''"
proof -
  assume "d < 10"
  then have "d \<in> {0, 1, 2, 3, 4, 5, 6, 7, 8, 9}" by auto
  then show ?thesis by (auto simp: digit_char_def)
qed

lemma str_nat_inj: "str_nat a = str_nat b \<Longrightarrow> a = b"
proof (induction a arbitrary: b rule: str_nat.induct)
  case (1 n)
  show ?case
  proof (cases "n < 10")
    case True
    show ?thesis
    proof (cases "b < 10")
      case b: True
      with True 1(2) show ?thesis
        by (simp add: str_nat.simps [of n] str_nat.simps [of b] digit_char_inj)
    next
      case b: False
      with True 1(2) show ?thesis
        using str_nat_nonempty [of "b div 10"]
        by (simp add: str_nat.simps [of n] str_nat.simps [of b])
    qed
  next
    case False
    show ?thesis
    proof (cases "b < 10")
      case b: True
      with False 1(2) show ?thesis
        using str_nat_nonempty [of "n div 10"]
        by (simp add: str_nat.simps [of n] str_nat.simps [of b])
    next
      case b: False
      with False 1(2) have "str_nat (n div 10) = str_nat (b div 10)"
        and d: "digit_char (n mod 10) = digit_char (b mod 10)"
        by (simp_all add: str_nat.simps [of n] str_nat.simps [of b])
      with False 1(1) have "n div 10 = b div 10" by blast
      moreover from d have "n mod 10 = b mod 10" by (intro digit_char_inj) simp_all
      ultimately show ?thesis by (metis div_mult_mod_eq)
    qed
  qed
qed

lemma str_nat_digits: "c \<in> set (str_nat n) \<Longrightarrow> c \<in> set ''0123456789''"
proof (induction n rule: str_nat.induct)
  case (1 n)
  show ?case
  proof (cases "n < 10")
    case True
    with 1(2) show ?thesis
      using digit_char_digit [of n] by (simp add: str_nat.simps [of n])
  next
    case False
    with 1 show ?thesis
      using digit_char_digit [of "n mod 10"] by (auto simp: str_nat.simps [of n])
  qed
qed

lemma str_int_no_underscore: "CHR ''_'' \<notin> set (str_int t)"
  by (auto simp: str_int_def dest: str_nat_digits)

lemma str_int_inj_nonneg: "0 \<le> a \<Longrightarrow> 0 \<le> b \<Longrightarrow> str_int a = str_int b \<Longrightarrow> a = b"
  by (auto simp: str_int_def dest: str_nat_inj)

lemma video_name_inj: "video_name t i = video_name u j \<Longrightarrow> i = j"
proof -
  assume "video_name t i = video_name u j"
  then have "str_int t @ CHR ''_'' # (str_int (int i + 1) @ ''.mp4'')
           = str_int u @ CHR ''_'' # (str_int (int j + 1) @ ''.mp4'')"
    by (simp add: video_name_def)
  then have "str_int (int i + 1) @ ''.mp4'' = str_int (int j + 1) @ ''.mp4''"
    using str_int_no_underscore by (simp add: append_Cons_eq_iff)
  then have "str_int (int i + 1) = str_int (int j + 1)" by simp
  then have "int i + 1 = int j + 1" by (intro str_int_inj_nonneg) simp_all
  then show "i = j" by simp
qed

lemma ends_with_append: "ends_with sfx (q @ sfx)"
  by (simp add: ends_with_def)

lemma ends_with_unique: "ends_with a p \<Longrightarrow> ends_with b p \<Longrightarrow> length a = length b \<Longrightarrow> a = b"
  by (auto simp: ends_with_def)

lemma extends_refl: "extends ok w w"
  by (simp add: extends_def)

lemma extends_trans: "extends ok w w1 \<Longrightarrow> extends ok w1 w2 \<Longrightarrow> extends ok w w2"
  unfolding extends_def
  by (metis (no_types, lifting) append.assoc Un_iff set_append)

lemma extends_mono: "extends ok w w' \<Longrightarrow> (\<And>p. ok p \<Longrightarrow> ok' p) \<Longrightarrow> extends ok' w w'"
  unfolding extends_def by blast

lemma extends_write_file: "ok p \<Longrightarrow> extends ok w (write_file p c w)"
  by (auto simp: extends_def write_file_def)

lemma extends_unlink: "ok p \<Longrightarrow> extends ok w (try_pass (unlink oc p w))"
  by (auto simp: extends_def unlink_def try_pass_def)

lemma extends_close: "try_pass (audio_close oc w) = w"
  by (simp add: audio_close_def try_pass_def)

lemma with_suffix_ends: "with_suffix p sfx = Inr a \<Longrightarrow> ends_with sfx a"
  by (auto simp: with_suffix_def Let_def ends_with_append split: if_splits)

lemma create_voice_cases:
  "create_voice oc t a w = (r, w1) \<Longrightarrow>
   (r = None \<and> w1 = write_file a (Audio (ext_audio_len oc)) w) \<or> (r \<noteq> None \<and> w1 = w)"
  by (auto simp: create_voice_def split: if_splits)

lemma write_videofile_cases:
  "write_videofile oc p t w = (r, w1) \<Longrightarrow>
   (r = None \<and> w1 = write_file p (Video t) w) \<or> (r \<noteq> None \<and> w1 = w)"
  by (auto simp: write_videofile_def split: if_splits)

lemma create_text_image_clip_cases:
  "create_text_image_clip oc tip t w = (r, w1) \<Longrightarrow>
   (r = Inr (text_image_path oc) \<and> w1 = write_file (text_image_path oc) Picture w)
   \<or> ((\<exists>e. r = Inl e) \<and> w1 = w)"
  by (auto simp: create_text_image_clip_def split: if_splits)

lemma text_image_path_png: "ends_with ''.png'' (text_image_path oc)"
  unfolding text_image_path_def using ends_with_append [of "''.png''" "''outputs/text_'' @ ext_uuid oc"]
  by simp

lemma build_video_extends:
  assumes "build_video oc tip out d c s w = (r, w')"
  shows "extends (\<lambda>p. p = out \<or> ends_with ''.mp3'' p) w w'"
proof (cases "with_suffix out ''.mp3''")
  case (Inl e)
  with assms show ?thesis by (simp add: build_video_def extends_refl)
next
  case (Inr a)
  then have a: "ends_with ''.mp3'' a" by (rule with_suffix_ends)
  obtain r1 w1 where cv: "create_voice oc tip a w = (r1, w1)" by (cases "create_voice oc tip a w")
  have e1: "extends (\<lambda>p. p = out \<or> ends_with ''.mp3'' p) w w1"
    using create_voice_cases [OF cv] a by (auto intro: extends_write_file extends_refl)
  have "extends (\<lambda>p. p = out \<or> ends_with ''.mp3'' p) w1 w'"
    using assms Inr cv
    by (auto simp: build_video_def extends_close
        split: option.splits sum.splits if_splits prod.splits
        dest!: write_videofile_cases intro: extends_write_file extends_refl)
  with e1 show ?thesis by (rule extends_trans)
qed

lemma build_video_local_extends:
  assumes "build_video_local oc tip out d c s w = (r, w')"
  shows "extends (\<lambda>p. p = out \<or> ends_with ''.mp3'' p \<or> ends_with ''.png'' p) w w'"
proof (cases "with_suffix out ''.mp3''")
  case (Inl e)
  with assms show ?thesis by (simp add: build_video_local_def extends_refl)
next
  case (Inr a)
  let ?ok = "\<lambda>p. p = out \<or> ends_with ''.mp3'' p \<or> ends_with ''.png'' p"
  from Inr have a: "ends_with ''.mp3'' a" by (rule with_suffix_ends)
  obtain r1 w1 where cv: "create_voice oc tip a w = (r1, w1)" by (cases "create_voice oc tip a w")
  have e1: "extends ?ok w w1"
    using create_voice_cases [OF cv] a by (auto intro: extends_write_file extends_refl)
  have tmp: "?ok (text_image_path oc)" using text_image_path_png by simp
  have "extends ?ok w1 w'"
  proof (cases "r1 = None \<and> (\<exists>l. AudioFileClip w1 a = Inr l) \<and> ext_caption oc \<and> ext_encode oc")
    case False
    with assms Inr cv have "w' = w1 \<or> w' = write_file (text_image_path oc) Picture w1"
      by (auto simp: build_video_local_def create_text_image_clip_def write_videofile_def
          split: option.splits sum.splits if_splits prod.splits)
    moreover have "extends ?ok w1 (write_file (text_image_path oc) Picture w1)"
      using tmp by (intro extends_write_file)
    ultimately show ?thesis by (auto intro: extends_refl)
  next
    case True
    then obtain l where l: "AudioFileClip w1 a = Inr l" by blast
    let ?w2 = "write_file (text_image_path oc) Picture w1"
    let ?w3 = "write_file out (Video (clip_duration d l)) ?w2"
    obtain bg where "background_local (clip_duration d l) c s w1 = Inr bg"
      by (cases "background_local (clip_duration d l) c s w1")
         (auto simp: background_local_def split: option.splits if_splits sum.splits)
    with assms Inr cv True l have w': "w' = try_pass (unlink oc (text_image_path oc) ?w3)"
      by (auto simp: build_video_local_def create_text_image_clip_def write_videofile_def
          extends_close)
    have "extends ?ok w1 ?w2" using tmp by (intro extends_write_file)
    moreover have "extends ?ok ?w2 ?w3" by (intro extends_write_file) simp
    moreover have "extends ?ok ?w3 w'" unfolding w' using tmp by (intro extends_unlink)
    ultimately show ?thesis by (blast intro: extends_trans)
  qed
  with e1 show ?thesis by (rule extends_trans)
qed

lemma build_video_success:
  assumes "build_video oc tip out d c s w = (None, w')"
  shows "\<exists>a. with_suffix out ''.mp3'' = Inr a \<and> files w' a \<noteq> None
          \<and> files w' out = Some (Video (clip_duration d (ext_audio_len oc)))"
  using assms
  by (auto simp: build_video_def create_voice_def AudioFileClip_def write_videofile_def
      write_file_def extends_close
      split: sum.splits if_splits option.splits prod.splits content.splits)

lemma build_video_local_success:
  assumes "build_video_local oc tip out d c s w = (None, w')"
  shows "\<exists>a. with_suffix out ''.mp3'' = Inr a \<and> files w' a \<noteq> None
          \<and> (ext_unlink oc \<longrightarrow> files w' (text_image_path oc) = None)
          \<and> (\<not> ext_unlink oc \<longrightarrow> files w' (text_image_path oc) \<noteq> None)
          \<and> (out \<noteq> text_image_path oc \<longrightarrow>
                files w' out = Some (Video (clip_duration d (ext_audio_len oc))))"
proof -
  from assms obtain a where a: "with_suffix out ''.mp3'' = Inr a"
    by (auto simp: build_video_local_def split: sum.splits)
  then have "ends_with ''.mp3'' a" by (rule with_suffix_ends)
  then have ne: "a \<noteq> text_image_path oc"
    using text_image_path_png [of oc] ends_with_unique [of "''.mp3''" a "''.png''"] by auto
  from assms a ne show ?thesis
    by (auto simp: build_video_local_def create_voice_def AudioFileClip_def write_videofile_def
      write_file_def audio_close_def create_text_image_clip_def unlink_def try_pass_def
      path_exists_def
      split: sum.splits if_splits option.splits prod.splits content.splits)
qed

lemma out_path_mp4: "ends_with ''.mp4'' (out_path_of t i)"
  unfolding out_path_of_def video_name_def
  using ends_with_append [of "''.mp4''" "''outputs/tech_tip_'' @ str_int t @ ''_'' @ str_int (int i + 1)"]
  by simp

lemma out_path_inj: "out_path_of t i = out_path_of u j \<Longrightarrow> i = j"
  using video_name_inj by (auto simp: out_path_of_def)

lemma mp4_not_other:
  "ends_with ''.mp4'' p \<Longrightarrow> \<not> ends_with ''.mp3'' p \<and> \<not> ends_with ''.png'' p"
  using ends_with_unique [of "''.mp4''" p "''.mp3''"] ends_with_unique [of "''.mp4''" p "''.png''"]
  by auto

lemma batch_invariant:
  assumes B: "\<forall>oc tip out d c s w r w'. build oc tip out d c s w = (r, w') \<longrightarrow>
                extends (\<lambda>p. p = out \<or> ends_with ''.mp3'' p \<or> ends_with ''.png'' p) w w'"
    and S: "\<forall>oc tip out d c s w w'. build oc tip out d c s w = (None, w') \<longrightarrow>
                ends_with ''.mp4'' out \<longrightarrow> (\<exists>t. files w' out = Some (Video t))"
  shows "batch build stock ocs i tips results w = (r, results', w') \<Longrightarrow>
     \<forall>x \<in> set results. (\<exists>k<i. snd x = out_path_of (ext_time (ocs k)) k)
                          \<and> (\<exists>t. files w (snd x) = Some (Video t)) \<Longrightarrow>
     extends (\<lambda>p. ends_with ''.mp3'' p \<or> ends_with ''.png'' p \<or> ends_with ''.mp4'' p) w w'
     \<and> (\<forall>x \<in> set results'. ends_with ''.mp4'' (snd x) \<and> (\<exists>t. files w' (snd x) = Some (Video t)))
     \<and> (\<exists>n \<le> length tips. map fst results' = map fst results @ take n tips
            \<and> (r = None \<longrightarrow> n = length tips) \<and> (r \<noteq> None \<longrightarrow> n < length tips))"
proof (induction tips arbitrary: i results w)
  case Nil
  then show ?case using out_path_mp4 by (auto simp: extends_refl)
next
  case (Cons tip tips)
  let ?out = "out_path_of (ext_time (ocs i)) i"
  let ?ok = "\<lambda>p. ends_with ''.mp3'' p \<or> ends_with ''.png'' p \<or> ends_with ''.mp4'' p"
  obtain r1 w1 where b: "build (ocs i) tip ?out None (18, 18, 18) (pick_stock stock i) w = (r1, w1)"
    by (cases "build (ocs i) tip ?out None (18, 18, 18) (pick_stock stock i) w")
  have e1: "extends (\<lambda>p. p = ?out \<or> ends_with ''.mp3'' p \<or> ends_with ''.png'' p) w w1"
    using B b by blast
  then have e1': "extends ?ok w w1"
    by (rule extends_mono) (use out_path_mp4 in auto)
  have old: "ends_with ''.mp4'' (snd x) \<and> (\<exists>t. files w1 (snd x) = Some (Video t))"
    if x: "x \<in> set results" for x
  proof -
    from Cons.prems(2) x obtain k where k: "k < i" "snd x = out_path_of (ext_time (ocs k)) k"
      and v: "\<exists>t. files w (snd x) = Some (Video t)" by blast
    from k have "snd x \<noteq> ?out" using out_path_inj by auto
    moreover from k have "\<not> ends_with ''.mp3'' (snd x) \<and> \<not> ends_with ''.png'' (snd x)"
      using mp4_not_other out_path_mp4 by simp
    ultimately have "files w1 (snd x) = files w (snd x)"
      using e1 by (simp add: extends_def)
    with v k show ?thesis using out_path_mp4 by simp
  qed
  show ?case
  proof (cases r1)
    case (Some e)
    with Cons.prems(1) b have "r = Some e" "results' = results" "w' = w1" by simp_all
    with e1' old show ?thesis by (auto intro: exI [of _ 0])
  next
    case None
    let ?results1 = "results @ [(tip, ?out)]"
    from None Cons.prems(1) b
    have rec: "batch build stock ocs (Suc i) tips ?results1 w1 = (r, results', w')" by simp
    from None b have "\<exists>t. files w1 ?out = Some (Video t)"
      using S out_path_mp4 by blast
    with old Cons.prems(2)
    have inv: "\<forall>x \<in> set ?results1. (\<exists>k<Suc i. snd x = out_path_of (ext_time (ocs k)) k)
                          \<and> (\<exists>t. files w1 (snd x) = Some (Video t))"
      by (fastforce simp: less_Suc_eq)
    from Cons.IH [OF rec inv]
    have e2: "extends ?ok w1 w'"
      and v: "\<forall>x \<in> set results'. ends_with ''.mp4'' (snd x)
                 \<and> (\<exists>t. files w' (snd x) = Some (Video t))"
      and n: "\<exists>n \<le> length tips. map fst results' = map fst ?results1 @ take n tips
            \<and> (r = None \<longrightarrow> n = length tips) \<and> (r \<noteq> None \<longrightarrow> n < length tips)"
      by blast+
    from n obtain n where n: "n \<le> length tips" "map fst results' = map fst ?results1 @ take n tips"
        "r = None \<longrightarrow> n = length tips" "r \<noteq> None \<longrightarrow> n < length tips" by blast
    then have "Suc n \<le> length (tip # tips) \<and> map fst results' = map fst results @ take (Suc n) (tip # tips)
            \<and> (r = None \<longrightarrow> Suc n = length (tip # tips)) \<and> (r \<noteq> None \<longrightarrow> Suc n < length (tip # tips))"
      by simp
    then have "\<exists>n \<le> length (tip # tips). map fst results' = map fst results @ take n (tip # tips)
            \<and> (r = None \<longrightarrow> n = length (tip # tips)) \<and> (r \<noteq> None \<longrightarrow> n < length (tip # tips))"
      by blast
    with extends_trans [OF e1' e2] v show ?thesis by blast
  qed
qed

lemma manifest_not_media:
  "\<not> ends_with ''.mp3'' manifest_path \<and> \<not> ends_with ''.png'' manifest_path
   \<and> \<not> ends_with ''.mp4'' manifest_path"
  by (simp add: ends_with_def manifest_path_def)

lemma script_run:
  assumes B: "\<forall>oc tip out d c s w r w'. build oc tip out d c s w = (r, w') \<longrightarrow>
                extends (\<lambda>p. p = out \<or> ends_with ''.mp3'' p \<or> ends_with ''.png'' p) w w'"
    and S: "\<forall>oc tip out d c s w w'. build oc tip out d c s w = (None, w') \<longrightarrow>
                ends_with ''.mp4'' out \<longrightarrow> (\<exists>t. files w' out = Some (Video t))"
    and run: "script tips_fn build key reply stock ocs w = (status, results, w')"
  shows "(status = 0 \<or> status = 1)
   \<and> ((key = None \<or> key = Some [] \<or> (\<exists>e. reply = Inl e)
        \<or> (\<exists>text e. reply = Inr text \<and> tips_fn 5 text = Inl e)
        \<or> (\<exists>text tips e. reply = Inr text \<and> tips_fn 5 text = Inr tips
              \<and> fst (batch build stock ocs 0 tips [] w) = Some e))
       \<longleftrightarrow> status = 1)
   \<and> (\<exists>new. written w' = new @ written w
        \<and> (status = 0 \<longrightarrow>
              (\<exists>rest. new = manifest_path # rest \<and> manifest_path \<notin> set rest)
              \<and> files w' manifest_path = Some (Json results)
              \<and> (\<exists>text. reply = Inr text \<and> tips_fn 5 text = Inr (map fst results)))
        \<and> (status = 1 \<longrightarrow>
              manifest_path \<notin> set new \<and> files w' manifest_path = files w manifest_path))
   \<and> (\<forall>x \<in> set results. \<exists>t. files w' (snd x) = Some (Video t))"
proof (cases "\<exists>k text tips. key = Some k \<and> k \<noteq> [] \<and> reply = Inr text \<and> tips_fn 5 text = Inr tips")
  case False
  with run have "status = 1" "results = []" "w' = w"
    by (auto simp: script_def split: option.splits sum.splits if_splits)
  moreover have "\<exists>e. tips_fn 5 body_text = Inl e"
    if "\<forall>tips. tips_fn 5 body_text \<noteq> Inr tips" for body_text
    using that by (cases "tips_fn 5 body_text") auto
  ultimately show ?thesis using False by (cases key; cases reply) auto
next
  case True
  then obtain k body_text tips where k: "key = Some k" "k \<noteq> []" "reply = Inr body_text"
      "tips_fn 5 body_text = Inr tips" by blast
  let ?ok = "\<lambda>p. ends_with ''.mp3'' p \<or> ends_with ''.png'' p \<or> ends_with ''.mp4'' p"
  obtain r res wb where b: "batch build stock ocs 0 tips [] w = (r, res, wb)"
    by (cases "batch build stock ocs 0 tips [] w")
  have inv: "extends ?ok w wb
     \<and> (\<forall>x \<in> set res. ends_with ''.mp4'' (snd x) \<and> (\<exists>t. files wb (snd x) = Some (Video t)))
     \<and> (\<exists>n \<le> length tips. map fst res = take n tips
            \<and> (r = None \<longrightarrow> n = length tips) \<and> (r \<noteq> None \<longrightarrow> n < length tips))"
    using batch_invariant [OF B S b] by simp
  then obtain new where new: "written wb = new @ written w" "\<forall>p \<in> set new. ?ok p"
    and same: "files wb manifest_path = files w manifest_path"
    using manifest_not_media by (auto simp: extends_def)
  from new have nm: "manifest_path \<notin> set new" using manifest_not_media by blast
  show ?thesis
  proof (cases r)
    case (Some e)
    with run k b have "status = 1" "results = res" "w' = wb"
      by (auto simp: script_def)
    with Some k b inv new nm same show ?thesis by auto
  next
    case None
    with run k b have st: "status = 0" "results = res" "w' = write_file manifest_path (Json res) wb"
      by (auto simp: script_def)
    from inv None have tips: "map fst res = tips" by auto
    have vids: "\<forall>x \<in> set res. \<exists>t. files w' (snd x) = Some (Video t)"
    proof
      fix x assume "x \<in> set res"
      with inv have "ends_with ''.mp4'' (snd x)" "\<exists>t. files wb (snd x) = Some (Video t)" by auto
      moreover from this have "snd x \<noteq> manifest_path" using manifest_not_media by auto
      ultimately show "\<exists>t. files w' (snd x) = Some (Video t)"
        by (simp add: st write_file_def)
    qed
    have "written w' = (manifest_path # new) @ written w"
      by (simp add: st write_file_def new)
    moreover have "files w' manifest_path = Some (Json results)"
      by (simp add: st write_file_def)
    ultimately show ?thesis using st k b None nm tips vids by auto
  qed
qed

lemma builders_tidy:
  assumes "build = build_video \<or> build = build_video_local"
  shows "\<forall>oc tip out d c s w r w'. build oc tip out d c s w = (r, w') \<longrightarrow>
                extends (\<lambda>p. p = out \<or> ends_with ''.mp3'' p \<or> ends_with ''.png'' p) w w'"
    and "\<forall>oc tip out d c s w w'. build oc tip out d c s w = (None, w') \<longrightarrow>
                ends_with ''.mp4'' out \<longrightarrow> (\<exists>t. files w' out = Some (Video t))"
proof -
  show "\<forall>oc tip out d c s w r w'. build oc tip out d c s w = (r, w') \<longrightarrow>
                extends (\<lambda>p. p = out \<or> ends_with ''.mp3'' p \<or> ends_with ''.png'' p) w w'"
  proof (intro allI impI)
    fix oc tip out d c s w r w'
    assume b: "build oc tip out d c s w = (r, w')"
    from assms show "extends (\<lambda>p. p = out \<or> ends_with ''.mp3'' p \<or> ends_with ''.png'' p) w w'"
    proof
      assume "build = build_video"
      with b have "extends (\<lambda>p. p = out \<or> ends_with ''.mp3'' p) w w'"
        using build_video_extends by simp
      then show ?thesis by (rule extends_mono) auto
    next
      assume "build = build_video_local"
      with b show ?thesis using build_video_local_extends by simp
    qed
  qed
  show "\<forall>oc tip out d c s w w'. build oc tip out d c s w = (None, w') \<longrightarrow>
                ends_with ''.mp4'' out \<longrightarrow> (\<exists>t. files w' out = Some (Video t))"
  proof (intro allI impI)
    fix oc tip out d c s w w'
    assume b: "build oc tip out d c s w = (None, w')" and m: "ends_with ''.mp4'' out"
    from assms show "\<exists>t. files w' out = Some (Video t)"
    proof
      assume "build = build_video"
      with b show ?thesis using build_video_success by blast
    next
      assume "build = build_video_local"
      moreover from m have "out \<noteq> text_image_path oc"
        using mp4_not_other text_image_path_png by blast
      ultimately show ?thesis using b build_video_local_success by blast
    qed
  qed
qed

lemma build_video_close: "build_video (oc\<lparr>ext_close := x\<rparr>) = build_video oc"
  by (intro ext)
     (simp add: build_video_def create_voice_def write_videofile_def audio_close_def try_pass_def
        split: sum.splits option.splits prod.splits)

lemma build_video_local_close_unlink:
  "fst (build_video_local (oc\<lparr>ext_close := x, ext_unlink := y\<rparr>) tip out d c s w)
     = fst (build_video_local oc tip out d c s w)"
  by (simp add: build_video_local_def create_voice_def write_videofile_def audio_close_def
      try_pass_def create_text_image_clip_def text_image_path_def
      split: sum.splits option.splits prod.splits)

lemmas eval_defs = main_def main_local_def script_def generate_tech_tips_def
  generate_tech_tips_local_def tips_of_def splitlines_def linebreak_def strip_def isspace_def
  remove_numbering_def remove_numbering_local_def getitem_def isdigit_def after_first_def
  find_marker.simps slice_to_def fallback_sentences_def re_split_def sentence_end_def
  build_video_def build_video_local_def with_suffix_def path_name_def path_suffix_def
  create_voice_def AudioFileClip_def write_file_def clip_duration_def py_min_def py_max_def
  background_def background_local_def ColorClip_def create_text_image_clip_def
  text_image_path_def write_videofile_def audio_close_def unlink_def try_pass_def
  path_exists_def out_path_of_def video_name_def str_int_def str_nat.simps digit_char_def
  pick_stock_def manifest_path_def Let_def sample_reply_def sample_outcome_def empty_disk_def
  VideoFileClip_def subclip_def set_duration_def

lemma generate_tech_tips_returns:
  "(\<exists>tips. generate_tech_tips n text = Inr tips)
   \<longleftrightarrow> \<not> (\<exists>l \<in> set (splitlines text). length (strip l) = 1 \<and> isdigit (hd (strip l)))"
proof
  assume "\<exists>tips. generate_tech_tips n text = Inr tips"
  then have ok: "\<not> (\<exists>e. parse_lines remove_numbering (splitlines text) = Inl e)"
    by (auto simp: generate_tech_tips_def tips_of_def split: sum.splits)
  show "\<not> (\<exists>l \<in> set (splitlines text). length (strip l) = 1 \<and> isdigit (hd (strip l)))"
  proof
    assume "\<exists>l \<in> set (splitlines text). length (strip l) = 1 \<and> isdigit (hd (strip l))"
    then obtain l where l: "l \<in> set (splitlines text)" "length (strip l) = 1"
        "isdigit (hd (strip l))" by blast
    then have ne: "strip l \<noteq> []" by auto
    with l have "remove_numbering (strip l) = Inl IndexError"
      using remove_numbering_fails by blast
    with l ne have "\<exists>e. parse_lines remove_numbering (splitlines text) = Inl e"
      using parse_lines_fails by blast
    with ok show False by blast
  qed
next
  assume "\<not> (\<exists>l \<in> set (splitlines text). length (strip l) = 1 \<and> isdigit (hd (strip l)))"
  then obtain ls where "parse_lines remove_numbering (splitlines text) = Inr ls"
    using parse_remote by blast
  then show "\<exists>tips. generate_tech_tips n text = Inr tips"
    by (simp add: generate_tech_tips_def tips_of_def)
qed

lemma remote_fallback:
  assumes "generate_tech_tips n text = Inr tips" "int (length (nonblank_lines text)) < n"
  shows "tips = take (nat n) (map strip (filter (\<lambda>s. 10 < length (strip s)) (re_split text)))"
proof -
  from assms(1) obtain ls where ls: "parse_lines remove_numbering (splitlines text) = Inr ls"
    by (auto simp: generate_tech_tips_def tips_of_def split: sum.splits)
  then have "length ls = length (nonblank_lines text)"
    using parse_lines_rel [OF ls] by (auto simp: nonblank_lines_def dest: list_all2_lengthD)
  with assms show ?thesis
    using tips_of_fallback [OF ls, of n] by (simp add: generate_tech_tips_def)
qed

lemma not_paren_numbered:
  "\<not> paren_numbered l \<Longrightarrow> \<not> numbered l \<or> l ! 1 = CHR ''.''"
  by (auto simp: paren_numbered_def numbered_def)

section \<open>Clip duration: the clamp and the override\<close>

text \<open>
  Claim C2. Without a \<open>duration\<close> argument, \<open>build_video\<close> takes
  \<open>max(8, min(25, a + 0.5))\<close> for a narration of \<open>a\<close> seconds, so the clip lasts
  between 8 and 25 seconds whatever the narration's length.
\<close>

theorem clip_duration_clamped:
  "clip_duration None a = max 8 (min 25 (a + 0.5))
   \<and> 8 \<le> clip_duration None a \<and> clip_duration None a \<le> 25"
  by (simp add: clip_duration_def py_min_eq py_max_eq)

text \<open>
  Claim C9. The override is tested for truth, not against \<open>None\<close>: \<open>duration = 0\<close>
  is ignored, the clip duration is computed from the narration as if no override had
  been given, and both scripts build exactly what they build without one.
\<close>

theorem zero_duration_ignored:
  "clip_duration (Some 0) a = max 8 (min 25 (a + 0.5))
   \<and> build_video oc tip out (Some 0) c s w = build_video oc tip out None c s w
   \<and> build_video_local oc tip out (Some 0) c s w = build_video_local oc tip out None c s w"
  unfolding build_video_def build_video_local_def clip_duration_zero
  by (simp add: clip_duration_def py_min_eq py_max_eq)

section \<open>The unguarded index in generate\_videos.py\<close>

text \<open>
  Claim C8. In generate\_videos.py the parser reads \<open>line[1]\<close> as soon as \<open>line[0]\<close>
  is a digit. It raises IndexError exactly when some line of the reply is, once
  stripped, a single digit, as for the reply \<open>1\<close>. The local script checks the
  length first: it returns a list for every reply, and \<open>1\<close> stays a tip.
\<close>

theorem single_digit_line_raises:
  "(generate_tech_tips n text = Inl IndexError
      \<longleftrightarrow> (\<exists>l \<in> set (splitlines text). length (strip l) = 1 \<and> isdigit (hd (strip l))))
   \<and> generate_tech_tips n ''1'' = Inl IndexError
   \<and> (\<exists>tips. generate_tech_tips_local n text = Inr tips)
   \<and> generate_tech_tips_local 1 ''1'' = Inr [''1'']"
proof (intro conjI)
  show "generate_tech_tips n text = Inl IndexError
      \<longleftrightarrow> (\<exists>l \<in> set (splitlines text). length (strip l) = 1 \<and> isdigit (hd (strip l)))"
  proof
    assume "generate_tech_tips n text = Inl IndexError"
    then have "parse_lines remove_numbering (splitlines text) = Inl IndexError"
      by (simp add: generate_tech_tips_def tips_of_error)
    then obtain l where "l \<in> set (splitlines text)" "strip l \<noteq> []"
        "remove_numbering (strip l) = Inl IndexError"
      using parse_lines_error by blast
    then show "\<exists>l \<in> set (splitlines text). length (strip l) = 1 \<and> isdigit (hd (strip l))"
      using remove_numbering_fails by blast
  next
    assume "\<exists>l \<in> set (splitlines text). length (strip l) = 1 \<and> isdigit (hd (strip l))"
    then obtain l where l: "l \<in> set (splitlines text)" "length (strip l) = 1"
        "isdigit (hd (strip l))"
      by blast
    then have ne: "strip l \<noteq> []" by auto
    with l have "remove_numbering (strip l) = Inl IndexError"
      using remove_numbering_fails by blast
    with l ne have "\<exists>e. parse_lines remove_numbering (splitlines text) = Inl e"
      using parse_lines_fails by blast
    then obtain e where e: "parse_lines remove_numbering (splitlines text) = Inl e" ..
    then obtain l' where "strip l' \<noteq> []" "remove_numbering (strip l') = Inl e"
      using parse_lines_error by blast
    then have "e = IndexError" using remove_numbering_fails by blast
    with e show "generate_tech_tips n text = Inl IndexError"
      by (simp add: generate_tech_tips_def tips_of_error)
  qed
  show "generate_tech_tips n ''1'' = Inl IndexError"
    by (simp add: generate_tech_tips_def tips_of_def splitlines_def linebreak_def strip_def
        isspace_def remove_numbering_def getitem_def isdigit_def)
  show "\<exists>tips. generate_tech_tips_local n text = Inr tips"
  proof (cases "generate_tech_tips_local n text")
    case (Inl e)
    then have "parse_lines remove_numbering_local (splitlines text) = Inl e"
      by (simp add: generate_tech_tips_local_def tips_of_error)
    then obtain l where "remove_numbering_local (strip l) = Inl e"
      using parse_lines_error by blast
    then show ?thesis using remove_numbering_local_total [of "strip l"] by simp
  next
    case (Inr tips)
    then show ?thesis by blast
  qed
  show "generate_tech_tips_local 1 ''1'' = Inr [''1'']"
    by (simp add: generate_tech_tips_local_def tips_of_def splitlines_def linebreak_def strip_def
        isspace_def remove_numbering_local_def slice_to_def)
qed

section \<open>What the tip generator returns\<close>

text \<open>
  Claim C1, as stated, fails: a line that is only a marker gives an empty tip in both
  scripts, and a sentence of the fallback can keep its marker.
\<close>

theorem marker_only_line_counterexample:
  "generate_tech_tips 1 ''1.'' = Inr ['''']
   \<and> generate_tech_tips_local 1 ''1.'' = Inr ['''']
   \<and> generate_tech_tips_local 5 ''1) Lock your screen now! 2) Back up your files!''
       = Inr [''1) Lock your screen now!'', ''2) Back up your files!'']"
  by (simp add: generate_tech_tips_def generate_tech_tips_local_def tips_of_def splitlines_def
      linebreak_def strip_def isspace_def remove_numbering_def remove_numbering_local_def
      getitem_def isdigit_def after_first_def find_marker.simps slice_to_def
      fallback_sentences_def re_split_def sentence_end_def)

text \<open>
  Claim C1, amended. For every \<open>count \<ge> 1\<close> and every reply: the local script always
  returns, generate\_videos.py returns exactly when no line of the reply is, once
  trimmed, a single digit; whatever is returned has at most \<open>count\<close> entries.

  If the reply has at least \<open>count\<close> non-blank lines, there are exactly \<open>count\<close>
  entries, and entry \<open>i\<close> comes from the \<open>i\<close>-th non-blank line, trimmed. In the local
  script a line that starts with a digit and then a dot or a closing parenthesis gives
  the rest of the line after these two characters, trimmed again, and any other line is
  returned as it is. In generate\_videos.py the same holds for every line that does not
  start with a digit and a closing parenthesis; what it returns for such a line is not
  part of this statement. An entry obtained by this rule is empty exactly when the line
  is the two marker characters and nothing else.

  If the reply has fewer than \<open>count\<close> non-blank lines, the result is the first
  \<open>count\<close> of the trimmed pieces of the sentence split that are longer than 10
  characters, in order, with no numbering step applied to them; each is longer than 10
  characters.

  The reply \<open>1. Use keyboard shortcuts.\<close> yields the single entry
  \<open>Use keyboard shortcuts.\<close> for every \<open>count \<ge> 1\<close>.
\<close>

theorem tips_bounded_markers_removed:
  assumes "1 \<le> count"
  shows "((\<exists>tips. generate_tech_tips count text = Inr tips)
          \<longleftrightarrow> \<not> (\<exists>l \<in> set (splitlines text). length (strip l) = 1 \<and> isdigit (hd (strip l))))
   \<and> (\<forall>tips. generate_tech_tips count text = Inr tips \<longrightarrow> length tips \<le> nat count)
   \<and> (\<exists>tips. generate_tech_tips_local count text = Inr tips \<and> length tips \<le> nat count)
   \<and> (count \<le> int (length (nonblank_lines text)) \<longrightarrow>
        generate_tech_tips_local count text
          = Inr (take (nat count) (map without_marker (nonblank_lines text)))
        \<and> (\<forall>tips. generate_tech_tips count text = Inr tips \<longrightarrow>
              length tips = nat count
              \<and> (\<forall>i < nat count.
                    \<not> paren_numbered (nonblank_lines text ! i)
                    \<longrightarrow> tips ! i = without_marker (nonblank_lines text ! i))))
   \<and> (\<forall>l \<in> set (nonblank_lines text). without_marker l = [] \<longleftrightarrow> numbered l \<and> length l = 2)
   \<and> (int (length (nonblank_lines text)) < count \<longrightarrow>
        generate_tech_tips_local count text
          = Inr (take (nat count)
                  (map strip (filter (\<lambda>s. 10 < length (strip s)) (re_split text))))
        \<and> (\<forall>tips. generate_tech_tips count text = Inr tips \<longrightarrow>
              tips = take (nat count)
                  (map strip (filter (\<lambda>s. 10 < length (strip s)) (re_split text))))
        \<and> (\<forall>t \<in> set (take (nat count)
                  (map strip (filter (\<lambda>s. 10 < length (strip s)) (re_split text)))).
              10 < length t))
   \<and> generate_tech_tips count ''1. Use keyboard shortcuts.'' = Inr [''Use keyboard shortcuts.'']
   \<and> generate_tech_tips_local count ''1. Use keyboard shortcuts.''
        = Inr [''Use keyboard shortcuts.'']"
proof (intro conjI)
  show "(\<exists>tips. generate_tech_tips count text = Inr tips)
          \<longleftrightarrow> \<not> (\<exists>l \<in> set (splitlines text). length (strip l) = 1 \<and> isdigit (hd (strip l)))"
    by (rule generate_tech_tips_returns)
  show "\<forall>tips. generate_tech_tips count text = Inr tips \<longrightarrow> length tips \<le> nat count"
    using assms by (auto simp: generate_tech_tips_def dest: tips_of_length)
  have loc: "parse_lines remove_numbering_local (splitlines text)
             = Inr (map without_marker (nonblank_lines text))"
    by (rule parse_local)
  then obtain tips where t: "generate_tech_tips_local count text = Inr tips"
    by (simp add: generate_tech_tips_local_def tips_of_def)
  with assms have "length tips \<le> nat count"
    by (auto simp: generate_tech_tips_local_def dest: tips_of_length)
  with t show "\<exists>tips. generate_tech_tips_local count text = Inr tips \<and> length tips \<le> nat count"
    by blast
  show "count \<le> int (length (nonblank_lines text)) \<longrightarrow>
        generate_tech_tips_local count text
          = Inr (take (nat count) (map without_marker (nonblank_lines text)))
        \<and> (\<forall>tips. generate_tech_tips count text = Inr tips \<longrightarrow>
              length tips = nat count
              \<and> (\<forall>i < nat count.
                    \<not> paren_numbered (nonblank_lines text ! i)
                    \<longrightarrow> tips ! i = without_marker (nonblank_lines text ! i)))"
  proof (intro impI conjI allI)
    assume c: "count \<le> int (length (nonblank_lines text))"
    with assms show "generate_tech_tips_local count text
          = Inr (take (nat count) (map without_marker (nonblank_lines text)))"
      using tips_of_direct [OF loc, of count] by (simp add: generate_tech_tips_local_def)
    fix tips assume g: "generate_tech_tips count text = Inr tips"
    from assms have nn: "0 \<le> count" by simp
    show "length tips = nat count" using remote_entries(1) [OF g nn c] .
    fix i assume "i < nat count" and "\<not> paren_numbered (nonblank_lines text ! i)"
    then show "tips ! i = without_marker (nonblank_lines text ! i)"
      using remote_entries(2) [OF g nn c] not_paren_numbered by blast
  qed
  show "\<forall>l \<in> set (nonblank_lines text). without_marker l = [] \<longleftrightarrow> numbered l \<and> length l = 2"
    using without_marker_empty by blast
  show "int (length (nonblank_lines text)) < count \<longrightarrow>
        generate_tech_tips_local count text
          = Inr (take (nat count)
                  (map strip (filter (\<lambda>s. 10 < length (strip s)) (re_split text))))
        \<and> (\<forall>tips. generate_tech_tips count text = Inr tips \<longrightarrow>
              tips = take (nat count)
                  (map strip (filter (\<lambda>s. 10 < length (strip s)) (re_split text))))
        \<and> (\<forall>t \<in> set (take (nat count)
                  (map strip (filter (\<lambda>s. 10 < length (strip s)) (re_split text)))).
              10 < length t)"
  proof (intro impI conjI allI)
    assume c: "int (length (nonblank_lines text)) < count"
    then show "generate_tech_tips_local count text
          = Inr (take (nat count)
                  (map strip (filter (\<lambda>s. 10 < length (strip s)) (re_split text))))"
      unfolding generate_tech_tips_local_def
      using tips_of_fallback [OF loc, of count] by simp
    fix tips assume "generate_tech_tips count text = Inr tips"
    then show "tips = take (nat count)
                  (map strip (filter (\<lambda>s. 10 < length (strip s)) (re_split text)))"
      using c by (rule remote_fallback)
  next
    show "\<forall>t \<in> set (take (nat count)
                  (map strip (filter (\<lambda>s. 10 < length (strip s)) (re_split text)))).
              10 < length t"
      by (auto dest: in_set_takeD)
  qed
  show "generate_tech_tips count ''1. Use keyboard shortcuts.'' = Inr [''Use keyboard shortcuts.'']"
    using assms
    by (simp add: generate_tech_tips_def tips_of_def splitlines_def
      linebreak_def strip_def isspace_def remove_numbering_def
      getitem_def isdigit_def after_first_def slice_to_def
      fallback_sentences_def re_split_def sentence_end_def)
  show "generate_tech_tips_local count ''1. Use keyboard shortcuts.''
        = Inr [''Use keyboard shortcuts.'']"
    using assms
    by (simp add: generate_tech_tips_local_def tips_of_def splitlines_def
      linebreak_def strip_def isspace_def remove_numbering_local_def
      getitem_def isdigit_def find_marker.simps slice_to_def
      fallback_sentences_def re_split_def sentence_end_def)
qed

theorem tips_bounded_markers_removed_witness:
  "(1::int) \<le> 3
   \<and> generate_tech_tips_local 3 ''1. Tip A.\<newline>2) Tip B.\<newline>\<newline>Tip C.''
       = Inr [''Tip A.'', ''Tip B.'', ''Tip C.'']
   \<and> generate_tech_tips 3 ''1. Tip A.\<newline>2. Tip B.\<newline>\<newline>Tip C.''
       = Inr [''Tip A.'', ''Tip B.'', ''Tip C.'']
   \<and> generate_tech_tips 5 ''1) Lock your screen now! 2) Back up your files!''
       = Inr [''1) Lock your screen now!'', ''2) Back up your files!'']
   \<and> generate_tech_tips_local 5 ''1) Lock your screen now! 2) Back up your files!''
       = Inr [''1) Lock your screen now!'', ''2) Back up your files!'']"
proof -
  let ?T1 = "''1. Tip A.\<newline>2) Tip B.\<newline>\<newline>Tip C.''"
  let ?T2 = "''1. Tip A.\<newline>2. Tip B.\<newline>\<newline>Tip C.''"
  let ?T3 = "''1) Lock your screen now! 2) Back up your files!''"
  let ?cond = "\<lambda>text. \<exists>l \<in> set (splitlines text). length (strip l) = 1 \<and> isdigit (hd (strip l))"
  have h3: "(1::int) \<le> 3" and h5: "(1::int) \<le> 5" by simp_all
  have nb1: "nonblank_lines ?T1 = [''1. Tip A.'', ''2) Tip B.'', ''Tip C.'']"
    and nb2: "nonblank_lines ?T2 = [''1. Tip A.'', ''2. Tip B.'', ''Tip C.'']"
    and nb3: "nonblank_lines ?T3 = [?T3]"
    by (simp_all add: nonblank_lines_def splitlines_def linebreak_def strip_def isspace_def)
  have c2: "\<not> ?cond ?T2" and c3: "\<not> ?cond ?T3"
    by (simp_all add: splitlines_def linebreak_def strip_def isspace_def)
  have wm: "without_marker ''1. Tip A.'' = ''Tip A.''" "without_marker ''2) Tip B.'' = ''Tip B.''"
    "without_marker ''2. Tip B.'' = ''Tip B.''" "without_marker ''Tip C.'' = ''Tip C.''"
    by (simp_all add: without_marker_def numbered_def isdigit_def strip_def isspace_def)
  have np: "\<not> paren_numbered ''1. Tip A.''" "\<not> paren_numbered ''2. Tip B.''"
    "\<not> paren_numbered ''Tip C.''"
    by (simp_all add: paren_numbered_def)
  have rs: "map strip (filter (\<lambda>s. 10 < length (strip s)) (re_split ?T3))
            = [''1) Lock your screen now!'', ''2) Back up your files!'']"
    by (simp add: re_split_def sentence_end_def strip_def isspace_def)
  note t1 = tips_bounded_markers_removed [OF h3, of ?T1]
  note t2 = tips_bounded_markers_removed [OF h3, of ?T2]
  note t3 = tips_bounded_markers_removed [OF h5, of ?T3]
  from t1 [THEN conjunct2, THEN conjunct2, THEN conjunct2, THEN conjunct1]
  have r1: "generate_tech_tips_local 3 ?T1 = Inr [''Tip A.'', ''Tip B.'', ''Tip C.'']"
    by (simp add: nb1 wm)
  from t2 [THEN conjunct1] c2 obtain tips where g: "generate_tech_tips 3 ?T2 = Inr tips"
    by blast
  from t2 [THEN conjunct2, THEN conjunct2, THEN conjunct2, THEN conjunct1] g
  have len: "length tips = 3"
    and ent: "\<forall>i<3. \<not> paren_numbered ([''1. Tip A.'', ''2. Tip B.'', ''Tip C.''] ! i)
                \<longrightarrow> tips ! i = without_marker ([''1. Tip A.'', ''2. Tip B.'', ''Tip C.''] ! i)"
    by (simp_all add: nb2)
  from ent [rule_format, of 0] ent [rule_format, of 1] ent [rule_format, of 2]
  have "tips ! 0 = ''Tip A.''" "tips ! 1 = ''Tip B.''" "tips ! 2 = ''Tip C.''"
    by (simp_all add: np wm)
  moreover from len obtain a b c where "tips = [a, b, c]"
    by (auto simp: length_Suc_conv numeral_3_eq_3)
  ultimately have "tips = [''Tip A.'', ''Tip B.'', ''Tip C.'']"
    by simp
  with g have r2: "generate_tech_tips 3 ?T2 = Inr [''Tip A.'', ''Tip B.'', ''Tip C.'']"
    by simp
  note f3 = t3 [THEN conjunct2, THEN conjunct2, THEN conjunct2, THEN conjunct2,
    THEN conjunct2, THEN conjunct1]
  from f3 have r4: "generate_tech_tips_local 5 ?T3
       = Inr [''1) Lock your screen now!'', ''2) Back up your files!'']"
    by (simp add: nb3 rs)
  from t3 [THEN conjunct1] c3 obtain tips3 where g3: "generate_tech_tips 5 ?T3 = Inr tips3"
    by blast
  with f3 have "tips3 = [''1) Lock your screen now!'', ''2) Back up your files!'']"
    by (simp add: nb3 rs)
  with g3 have r3: "generate_tech_tips 5 ?T3
       = Inr [''1) Lock your screen now!'', ''2) Back up your files!'']"
    by simp
  from h3 r1 r2 r3 r4 show ?thesis by blast
qed

text \<open>
  The line of generate\_videos.py that removes the numbering splits at the first dot of
  the line, wherever it is. A line that starts with a digit and a closing parenthesis
  is therefore cut at its first dot, or kept whole, marker included, when it has none;
  the local script removes the two marker characters.
\<close>

lemma paren_line_cut_at_first_dot:
  "generate_tech_tips 1 ''1) Use keyboard shortcuts.'' = Inr ['''']
   \<and> generate_tech_tips 1 ''1) Use shortcuts'' = Inr [''1) Use shortcuts'']
   \<and> generate_tech_tips_local 1 ''1) Use keyboard shortcuts.'' = Inr [''Use keyboard shortcuts.'']"
  by (simp add: generate_tech_tips_def generate_tech_tips_local_def tips_of_def splitlines_def
      linebreak_def strip_def isspace_def remove_numbering_def remove_numbering_local_def
      getitem_def isdigit_def after_first_def find_marker.simps slice_to_def)

section \<open>The sentence fallback\<close>

text \<open>
  When the reply has fewer than \<open>count\<close> non-blank lines, the tips are the pieces of
  the raw text, split at the runs of spaces that follow a \<open>.\<close>, \<open>!\<close> or \<open>?\<close>,
  restricted to those longer than 10 characters once trimmed, each trimmed, and cut to
  the first \<open>count\<close>: always in the local script, and in generate\_videos.py when no
  line is a single digit. With at least \<open>count\<close> such sentences the result has exactly
  \<open>count\<close> entries. Every piece but the last ends with one of the three characters. A
  paragraph of six sentences gives five tips.
\<close>

lemma fallback_sentence_split:
  assumes "int (length (nonblank_lines text)) < count"
  shows "generate_tech_tips_local count text
           = Inr (take (nat count)
                   (map strip (filter (\<lambda>s. 10 < length (strip s)) (re_split text))))
   \<and> (\<not> (\<exists>l \<in> set (splitlines text). length (strip l) = 1 \<and> isdigit (hd (strip l))) \<longrightarrow>
        generate_tech_tips count text
           = Inr (take (nat count)
                   (map strip (filter (\<lambda>s. 10 < length (strip s)) (re_split text)))))
   \<and> (count \<le> int (length (filter (\<lambda>s. 10 < length (strip s)) (re_split text))) \<longrightarrow>
        length (take (nat count)
                 (map strip (filter (\<lambda>s. 10 < length (strip s)) (re_split text)))) = nat count)
   \<and> (\<forall>x \<in> set (butlast (re_split text)). x \<noteq> [] \<and> sentence_end (last x))"
proof (intro conjI)
  have loc: "parse_lines remove_numbering_local (splitlines text)
          = Inr (map without_marker (nonblank_lines text))"
    by (rule parse_local)
  show "generate_tech_tips_local count text
           = Inr (take (nat count)
                   (map strip (filter (\<lambda>s. 10 < length (strip s)) (re_split text))))"
    unfolding generate_tech_tips_local_def
    using tips_of_fallback [OF loc, of count] assms by simp
  show "\<not> (\<exists>l \<in> set (splitlines text). length (strip l) = 1 \<and> isdigit (hd (strip l))) \<longrightarrow>
        generate_tech_tips count text
           = Inr (take (nat count)
                   (map strip (filter (\<lambda>s. 10 < length (strip s)) (re_split text))))"
  proof
    assume "\<not> (\<exists>l \<in> set (splitlines text). length (strip l) = 1 \<and> isdigit (hd (strip l)))"
    then obtain ls where ls: "parse_lines remove_numbering (splitlines text) = Inr ls"
        and "length ls = length (nonblank_lines text)"
      using parse_remote by blast
    then show "generate_tech_tips count text
           = Inr (take (nat count)
                   (map strip (filter (\<lambda>s. 10 < length (strip s)) (re_split text))))"
      unfolding generate_tech_tips_def
      using tips_of_fallback [OF ls, of count] assms by simp
  qed
  show "count \<le> int (length (filter (\<lambda>s. 10 < length (strip s)) (re_split text))) \<longrightarrow>
        length (take (nat count)
                 (map strip (filter (\<lambda>s. 10 < length (strip s)) (re_split text)))) = nat count"
    by auto
  show "\<forall>x \<in> set (butlast (re_split text)). x \<noteq> [] \<and> sentence_end (last x)"
    using re_split_pieces by blast
qed

lemma six_sentence_paragraph:
  "generate_tech_tips_local 5 ''Always lock your screen. Back up your files weekly! Did you update today?  Use a password manager. Turn on two factor login. Restart the router sometimes.''
     = Inr [''Always lock your screen.'', ''Back up your files weekly!'', ''Did you update today?'',
            ''Use a password manager.'', ''Turn on two factor login.'']
   \<and> generate_tech_tips 5 ''Always lock your screen. Back up your files weekly! Did you update today?  Use a password manager. Turn on two factor login. Restart the router sometimes.''
     = Inr [''Always lock your screen.'', ''Back up your files weekly!'', ''Did you update today?'',
            ''Use a password manager.'', ''Turn on two factor login.'']
   \<and> length (filter (\<lambda>s. 10 < length (strip s)) (re_split ''Always lock your screen. Back up your files weekly! Did you update today?  Use a password manager. Turn on two factor login. Restart the router sometimes.'')) = 6"
  using fallback_sentence_split [of "''Always lock your screen. Back up your files weekly! Did you update today?  Use a password manager. Turn on two factor login. Restart the router sometimes.''" 5]
  by (simp add: nonblank_lines_def splitlines_def linebreak_def strip_def isspace_def
      re_split_def sentence_end_def)

text \<open>
  Claim C7. The claim holds for generate\_videos\_local.py on every reply. It fails for
  generate\_videos.py: when a line of the reply is a single digit, as in the reply \<open>7\<close>
  (one non-blank line, \<open>count = 5\<close>), the loop over the lines raises IndexError and
  the fallback is never reached, where the local script falls back as the claim says.
\<close>

theorem fallback_unreached_on_single_digit_line:
  "nonblank_lines ''7'' = [''7'']
   \<and> generate_tech_tips 5 ''7'' = Inl IndexError
   \<and> generate_tech_tips_local 5 ''7'' = Inr []
   \<and> nonblank_lines ''Always lock your screen. Back up your files weekly!\<newline>7''
        = [''Always lock your screen. Back up your files weekly!'', ''7'']
   \<and> generate_tech_tips 5 ''Always lock your screen. Back up your files weekly!\<newline>7''
        = Inl IndexError
   \<and> generate_tech_tips_local 5 ''Always lock your screen. Back up your files weekly!\<newline>7''
        = Inr [''Always lock your screen.'', ''Back up your files weekly!\<newline>7'']"
  by (simp add: generate_tech_tips_def generate_tech_tips_local_def tips_of_def splitlines_def
      linebreak_def strip_def isspace_def remove_numbering_def remove_numbering_local_def
      getitem_def isdigit_def after_first_def find_marker.simps slice_to_def
      fallback_sentences_def re_split_def sentence_end_def nonblank_lines_def)

section \<open>Output file names\<close>

text \<open>
  Claim C10. Two different loop indices never get the same output name, whatever the
  two timestamps are, and in particular when they coincide: the decimal index after the
  last underscore differs. The same holds for the paths under \<open>outputs\<close>.
\<close>

theorem output_names_distinct:
  "i \<noteq> j \<Longrightarrow> video_name t i \<noteq> video_name u j \<and> out_path_of t i \<noteq> out_path_of u j
    \<and> video_name t i \<noteq> video_name t j"
  using video_name_inj by (auto simp: out_path_of_def)

theorem output_names_distinct_witness:
  "(0::nat) \<noteq> 1 \<and> ''tech_tip_1730000000_1.mp4'' \<noteq> ''tech_tip_1730000000_2.mp4''
   \<and> video_name 1730000000 0 = ''tech_tip_1730000000_1.mp4''
   \<and> video_name 1730000000 1 = ''tech_tip_1730000000_2.mp4''"
  using output_names_distinct [of 0 1 1730000000 1730000000]
  by (simp add: video_name_def str_int_def str_nat.simps digit_char_def)

section \<open>The manifest\<close>

text \<open>
  Claim C6. For a run of either script: the exit status is 0 or 1, and it is 1 exactly
  when the credential is missing, the completion request or the parsing of its reply
  fails, or some build fails. A run that exits with 0 has written the manifest exactly
  once, as its last write, with one entry per tip in order. A run that exits with 1 has
  not written the manifest at all: the path holds what it held before. In both cases
  every video recorded in \<open>results\<close> before the exit is on disk.
\<close>

theorem manifest_written_once_at_end:
  assumes "(run = main \<and> tips_fn = generate_tech_tips \<and> build = build_video)
         \<or> (run = main_local \<and> tips_fn = generate_tech_tips_local \<and> build = build_video_local)"
    and "run key reply stock ocs w = (status, results, w')"
  shows "(status = 0 \<or> status = 1)
   \<and> ((key = None \<or> key = Some [] \<or> (\<exists>e. reply = Inl e)
        \<or> (\<exists>text e. reply = Inr text \<and> tips_fn 5 text = Inl e)
        \<or> (\<exists>text tips e. reply = Inr text \<and> tips_fn 5 text = Inr tips
              \<and> fst (batch build stock ocs 0 tips [] w) = Some e))
       \<longleftrightarrow> status = 1)
   \<and> (\<exists>new. written w' = new @ written w
        \<and> (status = 0 \<longrightarrow>
              (\<exists>rest. new = manifest_path # rest \<and> manifest_path \<notin> set rest)
              \<and> files w' manifest_path = Some (Json results)
              \<and> (\<exists>text. reply = Inr text \<and> tips_fn 5 text = Inr (map fst results)))
        \<and> (status = 1 \<longrightarrow>
              manifest_path \<notin> set new \<and> files w' manifest_path = files w manifest_path))
   \<and> (\<forall>x \<in> set results. \<exists>t. files w' (snd x) = Some (Video t))"
proof -
  from assms(1) have b: "build = build_video \<or> build = build_video_local" by blast
  from assms have "script tips_fn build key reply stock ocs w = (status, results, w')"
    by (auto simp: main_def main_local_def)
  then show ?thesis
    by (rule script_run [OF builders_tidy(1) [OF b] builders_tidy(2) [OF b]])
qed

theorem manifest_written_once_at_end_witness:
  "fst (main_local (Some ''key'') (Inr sample_reply) []
          (\<lambda>i. sample_outcome\<lparr>ext_encode := (i \<noteq> 1)\<rparr>) empty_disk) = 1
   \<and> fst (snd (main_local (Some ''key'') (Inr sample_reply) []
          (\<lambda>i. sample_outcome\<lparr>ext_encode := (i \<noteq> 1)\<rparr>) empty_disk))
       = [(''Tip A.'', ''outputs/tech_tip_1700000000_1.mp4'')]
   \<and> files (snd (snd (main_local (Some ''key'') (Inr sample_reply) []
          (\<lambda>i. sample_outcome\<lparr>ext_encode := (i \<noteq> 1)\<rparr>) empty_disk)))
         ''outputs/tech_tip_1700000000_1.mp4'' = Some (Video 8)
   \<and> files (snd (snd (main_local (Some ''key'') (Inr sample_reply) []
          (\<lambda>i. sample_outcome\<lparr>ext_encode := (i \<noteq> 1)\<rparr>) empty_disk)))
         manifest_path = None
   \<and> fst (main (Some ''key'') (Inr sample_reply) [] (\<lambda>i. sample_outcome) empty_disk) = 0
   \<and> hd (written (snd (snd (main (Some ''key'') (Inr sample_reply) []
          (\<lambda>i. sample_outcome) empty_disk)))) = manifest_path"
  using manifest_written_once_at_end [of main_local generate_tech_tips_local build_video_local
      "Some ''key''" "Inr sample_reply" "[]" "\<lambda>i. sample_outcome\<lparr>ext_encode := (i \<noteq> 1)\<rparr>"
      empty_disk
      "fst (main_local (Some ''key'') (Inr sample_reply) []
          (\<lambda>i. sample_outcome\<lparr>ext_encode := (i \<noteq> 1)\<rparr>) empty_disk)"
      "fst (snd (main_local (Some ''key'') (Inr sample_reply) []
          (\<lambda>i. sample_outcome\<lparr>ext_encode := (i \<noteq> 1)\<rparr>) empty_disk))"
      "snd (snd (main_local (Some ''key'') (Inr sample_reply) []
          (\<lambda>i. sample_outcome\<lparr>ext_encode := (i \<noteq> 1)\<rparr>) empty_disk))"]
  by (simp add: eval_defs)

section \<open>The background track\<close>

text \<open>
  Claim C3. A stock clip that exists, decodes, and is shorter than the requested
  duration gives, in both scripts, a background made from that clip whose duration is
  exactly the requested one, and nothing is raised: the subclip ends at the clip's own
  end, and the duration is then set to the requested value.
\<close>

theorem short_stock_clip_fills_duration:
  assumes "files w p = Some (Video native)" "p \<noteq> []" "0 \<le> native" "native < requested"
  shows "background requested color (Some p) w = Inr \<lparr>origin = Stock p, seconds = requested\<rparr>
       \<and> background_local requested color (Some p) w
            = Inr \<lparr>origin = Stock p, seconds = requested\<rparr>
       \<and> py_min requested native = native"
  using assms
  by (simp add: background_def background_local_def path_exists_def VideoFileClip_def
      subclip_def set_duration_def py_min_def)

theorem short_stock_clip_fills_duration_witness:
  "background 8 (18, 18, 18) (Some ''assets/clip1.mp4'')
      \<lparr>files = [''assets/clip1.mp4'' \<mapsto> Video 5], written = []\<rparr>
     = Inr \<lparr>origin = Stock ''assets/clip1.mp4'', seconds = 8\<rparr>
   \<and> background_local 8 (18, 18, 18) (Some ''assets/clip1.mp4'')
      \<lparr>files = [''assets/clip1.mp4'' \<mapsto> Video 5], written = []\<rparr>
     = Inr \<lparr>origin = Stock ''assets/clip1.mp4'', seconds = 8\<rparr>"
  using short_stock_clip_fills_duration [of "\<lparr>files = [''assets/clip1.mp4'' \<mapsto> Video 5], written = []\<rparr>"
      "''assets/clip1.mp4''" 5 8 "(18, 18, 18)"]
  by simp

text \<open>
  Claim C5. A stock clip that exists and does not decode: generate\_videos\_local.py
  catches the error and uses the solid colour, and its batch completes;
  generate\_videos.py has no handler, \<open>build_video\<close> raises, and the whole run exits
  with status 1.
\<close>

theorem damaged_stock_clip_aborts_generate_videos:
  "background 8 (18, 18, 18) (Some ''assets/clip1.mp4'')
      \<lparr>files = [''assets/clip1.mp4'' \<mapsto> Damaged], written = []\<rparr> = Inl AssetError
   \<and> background_local 8 (18, 18, 18) (Some ''assets/clip1.mp4'')
      \<lparr>files = [''assets/clip1.mp4'' \<mapsto> Damaged], written = []\<rparr>
       = Inr (ColorClip (18, 18, 18) 8)
   \<and> fst (build_video sample_outcome ''Tip A.'' ''outputs/a.mp4'' None (18, 18, 18)
        (Some ''assets/clip1.mp4'')
        \<lparr>files = [''assets/clip1.mp4'' \<mapsto> Damaged], written = []\<rparr>) = Some AssetError
   \<and> fst (build_video_local sample_outcome ''Tip A.'' ''outputs/a.mp4'' None (18, 18, 18)
        (Some ''assets/clip1.mp4'')
        \<lparr>files = [''assets/clip1.mp4'' \<mapsto> Damaged], written = []\<rparr>) = None
   \<and> fst (main (Some ''key'') (Inr sample_reply) [''assets/clip1.mp4''] (\<lambda>i. sample_outcome)
        \<lparr>files = [''assets/clip1.mp4'' \<mapsto> Damaged], written = []\<rparr>) = 1
   \<and> fst (main_local (Some ''key'') (Inr sample_reply) [''assets/clip1.mp4'']
        (\<lambda>i. sample_outcome)
        \<lparr>files = [''assets/clip1.mp4'' \<mapsto> Damaged], written = []\<rparr>) = 0"
  by (simp add: eval_defs)

section \<open>Temporary files after a build\<close>

text \<open>
  Claim C4, as stated, fails: after a successful build the narration file
  \<open>outputs/a.mp3\<close> is still on disk, in both scripts.
\<close>

theorem narration_file_remains_counterexample:
  "with_suffix ''outputs/a.mp4'' ''.mp3'' = Inr ''outputs/a.mp3''
   \<and> fst (build_video sample_outcome ''Tip A.'' ''outputs/a.mp4'' None (18, 18, 18) None
          empty_disk) = None
   \<and> files (snd (build_video sample_outcome ''Tip A.'' ''outputs/a.mp4'' None (18, 18, 18) None
          empty_disk)) ''outputs/a.mp3'' = Some (Audio 2)
   \<and> fst (build_video_local sample_outcome ''Tip A.'' ''outputs/a.mp4'' None (18, 18, 18) None
          empty_disk) = None
   \<and> files (snd (build_video_local sample_outcome ''Tip A.'' ''outputs/a.mp4'' None (18, 18, 18)
          None empty_disk)) ''outputs/a.mp3'' = Some (Audio 2)"
  by (simp add: eval_defs)

text \<open>
  Claim C4, amended. After \<open>build_video\<close> completes successfully the narration file at
  \<open>output_path.with_suffix(".mp3")\<close> still exists, in both scripts: they close the audio
  reader and delete nothing else. In generate\_videos\_local.py the caption image no
  longer exists when the operating system lets it be removed, and stays otherwise. A
  failure to close the reader or to remove the image is swallowed: it does not change
  whether the build succeeds.
\<close>

theorem narration_file_remains:
  "(build_video oc tip out d c s w = (None, w') \<longrightarrow>
      (\<exists>a. with_suffix out ''.mp3'' = Inr a \<and> files w' a \<noteq> None))
   \<and> (build_video_local oc tip out d c s w = (None, w'') \<longrightarrow>
      (\<exists>a. with_suffix out ''.mp3'' = Inr a \<and> files w'' a \<noteq> None)
      \<and> (ext_unlink oc \<longrightarrow> files w'' (text_image_path oc) = None)
      \<and> (\<not> ext_unlink oc \<longrightarrow> files w'' (text_image_path oc) \<noteq> None))
   \<and> build_video (oc\<lparr>ext_close := x\<rparr>) tip out d c s w = build_video oc tip out d c s w
   \<and> fst (build_video_local (oc\<lparr>ext_close := x, ext_unlink := y\<rparr>) tip out d c s w)
        = fst (build_video_local oc tip out d c s w)"
  using build_video_success [of oc tip out d c s w w']
    build_video_local_success [of oc tip out d c s w w'']
    build_video_local_close_unlink [where oc = oc and x = x and y = y]
  by (auto simp: build_video_close)

theorem narration_file_remains_witness:
  "files (snd (build_video_local sample_outcome ''Tip A.'' ''outputs/a.mp4'' None (18, 18, 18)
          None empty_disk)) ''outputs/a.mp3'' \<noteq> None
   \<and> files (snd (build_video_local sample_outcome ''Tip A.'' ''outputs/a.mp4'' None (18, 18, 18)
          None empty_disk)) ''outputs/text_ab12.png'' = None
   \<and> fst (build_video_local (sample_outcome\<lparr>ext_close := False, ext_unlink := False\<rparr>)
          ''Tip A.'' ''outputs/a.mp4'' None (18, 18, 18) None empty_disk) = None
   \<and> files (snd (build_video_local (sample_outcome\<lparr>ext_close := False, ext_unlink := False\<rparr>)
          ''Tip A.'' ''outputs/a.mp4'' None (18, 18, 18) None empty_disk))
        ''outputs/text_ab12.png'' = Some Picture"
  using narration_file_remains [of sample_outcome "''Tip A.''" "''outputs/a.mp4''" None "(18, 18, 18)" None empty_disk
      "snd (build_video sample_outcome ''Tip A.'' ''outputs/a.mp4'' None (18, 18, 18) None empty_disk)"
      "snd (build_video_local sample_outcome ''Tip A.'' ''outputs/a.mp4'' None (18, 18, 18) None empty_disk)"
      False False]
  by (simp add: eval_defs)

end
